theory Spec2Isabelle
  imports Complex_Main
begin

section \<open>Python values and the operations the configuration code performs on them\<close>

text \<open>
  The configuration mapping handed to \<^verbatim>\<open>CfgData(pedb, **kwargs)\<close> is parsed from a
  structured file, so its values are the values such a file can hold. A dictionary is an
  association list: Python dictionaries keep insertion order, and iterating one yields
  its keys in that order. A finite float is a rational number; the code below only ever
  tests a number for being zero.
\<close>

datatype pyval =
    PNone
  | PBool bool
  | PInt int
  | PFloat rat
  | PStr string
  | PList "pyval list"
  | PDict "(string \<times> pyval) list"

datatype py_error = TypeError | AttributeError

type_synonym kwargs = "(string \<times> pyval) list"

text \<open>\<^verbatim>\<open>d.get(k, default)\<close> on a dictionary.\<close>

definition dict_get :: "(string \<times> pyval) list \<Rightarrow> string \<Rightarrow> pyval \<Rightarrow> pyval" where
  "dict_get d k dflt = (case map_of d k of None \<Rightarrow> dflt | Some v \<Rightarrow> v)"

text \<open>The truth value Python's \<^verbatim>\<open>if x:\<close> gives a value.\<close>

fun truthy :: "pyval \<Rightarrow> bool" where
  "truthy PNone = False"
| "truthy (PBool b) = b"
| "truthy (PInt i) = (i \<noteq> 0)"
| "truthy (PFloat r) = (r \<noteq> 0)"
| "truthy (PStr s) = (s \<noteq> [])"
| "truthy (PList xs) = (xs \<noteq> [])"
| "truthy (PDict d) = (d \<noteq> [])"

text \<open>
  \<^verbatim>\<open>for x in v\<close>: a list yields its elements, a dictionary its keys, a string its
  characters; \<^verbatim>\<open>None\<close>, booleans and numbers are not iterable and raise
  \<^verbatim>\<open>TypeError\<close>.
\<close>

fun py_iter :: "pyval \<Rightarrow> py_error + pyval list" where
  "py_iter (PList xs) = Inr xs"
| "py_iter (PDict d) = Inr (map (\<lambda>kv. PStr (fst kv)) d)"
| "py_iter (PStr s) = Inr (map (\<lambda>c. PStr [c]) s)"
| "py_iter PNone = Inl TypeError"
| "py_iter (PBool b) = Inl TypeError"
| "py_iter (PInt i) = Inl TypeError"
| "py_iter (PFloat r) = Inl TypeError"

text \<open>
  \<^verbatim>\<open>f(**v)\<close>: only a mapping can be expanded into keyword arguments; anything else
  raises \<^verbatim>\<open>TypeError\<close>.
\<close>

fun py_expand :: "pyval \<Rightarrow> py_error + (string \<times> pyval) list" where
  "py_expand (PDict d) = Inr d"
| "py_expand v = Inl TypeError"

text \<open>
  \<^verbatim>\<open>v.get(k, default)\<close> on an arbitrary value: only a dictionary has the method, any
  other value raises \<^verbatim>\<open>AttributeError\<close>.
\<close>

fun py_get :: "pyval \<Rightarrow> string \<Rightarrow> pyval \<Rightarrow> py_error + pyval" where
  "py_get (PDict d) k dflt = Inr (dict_get d k dflt)"
| "py_get v k dflt = Inl AttributeError"

text \<open>Sequencing of statements that may raise: the first exception ends the run.\<close>

definition bind_err :: "'e + 'a \<Rightarrow> ('a \<Rightarrow> 'e + 'b) \<Rightarrow> 'e + 'b" where
  "bind_err m f = (case m of Inl e \<Rightarrow> Inl e | Inr x \<Rightarrow> f x)"

text \<open>A list comprehension whose body may raise, evaluated left to right.\<close>

fun map_err :: "('a \<Rightarrow> 'e + 'b) \<Rightarrow> 'a list \<Rightarrow> 'e + 'b list" where
  "map_err f [] = Inr []"
| "map_err f (x # xs) =
     bind_err (f x) (\<lambda>y. bind_err (map_err f xs) (\<lambda>ys. Inr (y # ys)))"

section \<open>The design handle\<close>

text \<open>
  The live design \<^verbatim>\<open>pedb\<close> is an object of the external engine. The model keeps the two
  parts of its state the code under study reaches: the components placed in the active
  layout (each with its reference designator, the name of its component definition, its
  type and the electrical model assigned to it) and the classification of its nets.
  A component object is identified by its position in the layout's component list.
\<close>

datatype model =
    Rlc_model "pyval" "pyval" "pyval" "pyval"
  | S_param_model "pyval" "pyval" "pyval"
  | Spice_model "pyval" "pyval"

record component =
  refdes :: string
  part_name :: string
  comp_type :: string
  comp_model :: "model option"

datatype net_class = Unclassified | Signal | Power_ground

record edb =
  layout_components :: "component list"
  layout_nets :: "(string \<times> net_class) list"

section \<open>The category objects\<close>

text \<open>
  Modelled from the spec: the category classes \<^verbatim>\<open>CfgGeneral\<close>, \<^verbatim>\<open>CfgBoundaries\<close>,
  \<^verbatim>\<open>CfgNets\<close>, \<^verbatim>\<open>CfgComponent\<close>, \<^verbatim>\<open>CfgPadstacks\<close>, \<^verbatim>\<open>CfgPinGroup\<close>, \<^verbatim>\<open>CfgPort\<close>,
  \<^verbatim>\<open>CfgSources\<close>, \<^verbatim>\<open>CfgSetup\<close> and \<^verbatim>\<open>CfgSpiceModel\<close> are imported by
  \<^verbatim>\<open>cfg_data.py\<close> from sibling modules that are not part of the sources at hand. The
  spec says of each category that it is "constructed from its slice of the mapping (or
  empty defaults)" and "stores entries", so each constructor is a datatype constructor
  holding exactly the arguments \<^verbatim>\<open>CfgData.__init__\<close> passes after \<^verbatim>\<open>self\<close>: a single
  value, the list of positional arguments where their number varies (\<^verbatim>\<open>CfgNets\<close>,
  \<^verbatim>\<open>CfgSetup\<close>), or the expanded keyword arguments.
\<close>

datatype CfgGeneral = CfgGeneral pyval
datatype CfgBoundaries = CfgBoundaries pyval
datatype CfgNets = CfgNets "pyval list"
datatype CfgComponent = CfgComponent "(string \<times> pyval) list"
datatype CfgPadstacks = CfgPadstacks pyval
datatype CfgPinGroup = CfgPinGroup pyval
datatype CfgPort = CfgPort "(string \<times> pyval) list"
datatype CfgSources = CfgSources "(string \<times> pyval) list"
datatype CfgSetup = CfgSetup "pyval list"

text \<open>
  \<^verbatim>\<open>self.general.spice_model_library\<close> is an attribute of the \<^verbatim>\<open>CfgGeneral\<close> object;
  it is kept as the expression it is.
\<close>

datatype spice_model_library = Spice_model_library_of CfgGeneral
datatype CfgSpiceModel = CfgSpiceModel spice_model_library pyval

text \<open>
  \<^verbatim>\<open>self.boundaries\<close> is first bound to the empty dictionary \<^verbatim>\<open>{}\<close> and only rebound
  to a \<^verbatim>\<open>CfgBoundaries\<close> object under the \<^verbatim>\<open>if\<close>.
\<close>

datatype boundaries_attr = Empty_dict | Boundaries CfgBoundaries

section \<open>\<^verbatim>\<open>CfgData\<close>\<close>

text \<open>
  The attributes \<^verbatim>\<open>CfgData.__init__\<close> binds, in the order of their first assignment.
  \<^verbatim>\<open>self.pedb\<close> is the reference to the design handle; the design's state is passed
  explicitly, so the record has no field for it. \<^verbatim>\<open>edb_comps\<close> holds what
  \<^verbatim>\<open>pedb.components.components\<close> gave at construction.
\<close>

record CfgData =
  edb_comps :: "(string \<times> component) list"
  general :: CfgGeneral
  boundaries :: boundaries_attr
  nets :: CfgNets
  components :: "CfgComponent list"
  padstacks :: CfgPadstacks
  pin_groups :: "CfgPinGroup list"
  ports :: "CfgPort list"
  sources :: "CfgSources list"
  setups :: "CfgSetup list"
  stackup :: pyval
  s_parameters :: pyval
  spice_models :: "CfgSpiceModel list"
  package_definition :: pyval
  operations :: pyval

text \<open>
  \<^verbatim>\<open>pedb.components.components\<close>: the dictionary from reference designator to
  component that the design handle gives for the components of its layout. A dictionary
  built from a sequence keeps a key at its first position and the value bound last.
\<close>

definition dict_set :: "('k \<times> 'v) list \<Rightarrow> 'k \<Rightarrow> 'v \<Rightarrow> ('k \<times> 'v) list" where
  "dict_set d k v =
     (if k \<in> fst ` set d then map (\<lambda>kv. if fst kv = k then (k, v) else kv) d
      else d @ [(k, v)])"

definition dict_of :: "('k \<times> 'v) list \<Rightarrow> ('k \<times> 'v) list" where
  "dict_of kvs = foldl (\<lambda>d kv. dict_set d (fst kv) (snd kv)) [] kvs"

definition components_components :: "edb \<Rightarrow> (string \<times> component) list" where
  "components_components pedb = dict_of (map (\<lambda>c. (refdes c, c)) (layout_components pedb))"

text \<open>The statements of \<^verbatim>\<open>CfgData.__init__\<close> that can raise, one definition each.\<close>

definition init_nets :: "kwargs \<Rightarrow> py_error + CfgNets" where
  "init_nets kw =
     (if truthy (dict_get kw ''nets'' PNone)
      then bind_err (py_get (dict_get kw ''nets'' (PDict [])) ''signal_nets'' (PList []))
             (\<lambda>sig. bind_err
                (py_get (dict_get kw ''nets'' (PDict [])) ''power_ground_nets'' (PList []))
                (\<lambda>pwr. Inr (CfgNets [sig, pwr])))
      else Inr (CfgNets []))"

definition init_components :: "kwargs \<Rightarrow> py_error + CfgComponent list" where
  "init_components kw =
     bind_err (py_iter (dict_get kw ''components'' (PList [])))
       (map_err (\<lambda>component. bind_err (py_expand component) (\<lambda>a. Inr (CfgComponent a))))"

definition init_pin_groups :: "kwargs \<Rightarrow> py_error + CfgPinGroup list" where
  "init_pin_groups kw =
     bind_err (py_iter (dict_get kw ''pin_groups'' (PList [])))
       (\<lambda>xs. Inr (map CfgPinGroup xs))"

definition init_ports :: "kwargs \<Rightarrow> py_error + CfgPort list" where
  "init_ports kw =
     bind_err (py_iter (dict_get kw ''ports'' (PList [])))
       (map_err (\<lambda>port. bind_err (py_expand port) (\<lambda>a. Inr (CfgPort a))))"

definition init_sources :: "kwargs \<Rightarrow> py_error + CfgSources list" where
  "init_sources kw =
     bind_err (py_iter (dict_get kw ''sources'' (PList [])))
       (map_err (\<lambda>source. bind_err (py_expand source) (\<lambda>a. Inr (CfgSources a))))"

definition init_setups :: "kwargs \<Rightarrow> py_error + CfgSetup list" where
  "init_setups kw =
     (if truthy (dict_get kw ''setups'' PNone)
      then bind_err (py_iter (dict_get kw ''setups'' (PList [])))
             (\<lambda>xs. Inr (map (\<lambda>setup. CfgSetup [setup]) xs))
      else Inr [CfgSetup []])"

definition init_spice_models :: "CfgGeneral \<Rightarrow> kwargs \<Rightarrow> py_error + CfgSpiceModel list" where
  "init_spice_models g kw =
     bind_err (py_iter (dict_get kw ''spice_models'' (PList [])))
       (\<lambda>xs. Inr (map (CfgSpiceModel (Spice_model_library_of g)) xs))"

text \<open>
  \<^verbatim>\<open>CfgData.__init__(self, pedb, **kwargs)\<close>, statement by statement. The result is the
  constructed object together with the design state the constructor leaves behind, or
  the exception that ended it.
\<close>

definition CfgData_init :: "edb \<Rightarrow> kwargs \<Rightarrow> py_error + (CfgData \<times> edb)" where
  "CfgData_init pedb kw =
     (let comps = components_components pedb;
          g = CfgGeneral (dict_get kw ''general'' PNone);
          b = (if truthy (dict_get kw ''boundaries'' PNone)
               then Boundaries (CfgBoundaries (dict_get kw ''boundaries'' PNone))
               else Empty_dict)
      in bind_err (init_nets kw) (\<lambda>n.
         bind_err (init_components kw) (\<lambda>cs.
         let p = CfgPadstacks (dict_get kw ''padstacks'' PNone) in
         bind_err (init_pin_groups kw) (\<lambda>pgs.
         bind_err (init_ports kw) (\<lambda>pts.
         bind_err (init_sources kw) (\<lambda>srcs.
         bind_err (init_setups kw) (\<lambda>sts.
         bind_err (init_spice_models g kw) (\<lambda>sms.
         Inr (\<lparr> edb_comps = comps, general = g, boundaries = b, nets = n,
                 components = cs, padstacks = p, pin_groups = pgs, ports = pts,
                 sources = srcs, setups = sts, stackup = PNone, s_parameters = PNone,
                 spice_models = sms, package_definition = PNone, operations = PNone \<rparr>,
              pedb)))))))))"

section \<open>Well-formed input mappings\<close>





section \<open>Component definitions\<close>

text \<open>
  \<^verbatim>\<open>EDBComponentDef\<close> wraps a component definition of the design; \<^verbatim>\<open>part_name\<close> is its
  name. The vendor call \<^verbatim>\<open>FindByComponentDef(active_layout, part_name)\<close> gives the
  components of the layout that belong to the definition: here, the positions of the
  layout's components whose definition has that name, in layout order.
\<close>

definition FindByComponentDef :: "edb \<Rightarrow> string \<Rightarrow> nat list" where
  "FindByComponentDef pedb name =
     filter (\<lambda>i. part_name (layout_components pedb ! i) = name)
       [0..<length (layout_components pedb)]"

text \<open>
  The property \<^verbatim>\<open>components\<close>: the dictionary \<^verbatim>\<open>{comp.refdes: comp for comp in comp_list}\<close>,
  each component given by its position.
\<close>

definition EDBComponentDef_components :: "edb \<Rightarrow> string \<Rightarrow> (string \<times> nat) list" where
  "EDBComponentDef_components pedb name =
     dict_of (map (\<lambda>i. (refdes (layout_components pedb ! i), i)) (FindByComponentDef pedb name))"

text \<open>
  The getter of the property \<^verbatim>\<open>type\<close>: \<^verbatim>\<open>num\<close> is the number of distinct component
  types, \<^verbatim>\<open>len(set(...))\<close>. The result is \<^verbatim>\<open>None\<close> or a string.
\<close>

definition EDBComponentDef_type :: "edb \<Rightarrow> string \<Rightarrow> string option" where
  "EDBComponentDef_type pedb name =
     (let num = length (remdups (map (\<lambda>kv. comp_type (layout_components pedb ! snd kv))
                                   (EDBComponentDef_components pedb name)))
      in if num = 0 then None
         else if num = 1
         then Some (comp_type (layout_components pedb !
                      snd (hd (EDBComponentDef_components pedb name))))
         else Some ''mixed'')"

text \<open>
  A statement that changes one component object changes that component of the layout.
\<close>

definition update_component :: "(component \<Rightarrow> component) \<Rightarrow> edb \<Rightarrow> nat \<Rightarrow> edb" where
  "update_component f pedb i =
     pedb\<lparr>layout_components := (layout_components pedb)[i := f (layout_components pedb ! i)]\<rparr>"

text \<open>
  The setter of \<^verbatim>\<open>type\<close>: \<^verbatim>\<open>for comp in list(self.components.values()): comp.type = value\<close>.
  The list of components is taken once, before the loop. What the assignment
  \<^verbatim>\<open>comp.type = value\<close> does to one component is decided by the class \<^verbatim>\<open>EDBComponent\<close>,
  which is not part of the sources at hand: it is the parameter \<open>set_type\<close>.
\<close>

definition EDBComponentDef_type_setter ::
  "(string \<Rightarrow> component \<Rightarrow> component) \<Rightarrow> edb \<Rightarrow> string \<Rightarrow> string \<Rightarrow> edb" where
  "EDBComponentDef_type_setter set_type pedb name v =
     foldl (update_component (set_type v)) pedb (map snd (EDBComponentDef_components pedb name))"

text \<open>
  Modelled from the spec: the methods \<^verbatim>\<open>assign_rlc_model\<close>, \<^verbatim>\<open>assign_s_param_model\<close> and
  \<^verbatim>\<open>assign_spice_model\<close> of \<^verbatim>\<open>EDBComponent\<close> are missing from the sources. The spec says
  a component is assigned "exactly one electrical model", the three kinds being
  "mutually exclusive per component; if more than one is specified, the last applied
  wins": a component has one slot for its model and each method puts its model there.
\<close>

definition EDBComponent_assign_rlc_model ::
  "pyval \<Rightarrow> pyval \<Rightarrow> pyval \<Rightarrow> pyval \<Rightarrow> component \<Rightarrow> component" where
  "EDBComponent_assign_rlc_model res ind cap is_parallel c =
     c\<lparr>comp_model := Some (Rlc_model res ind cap is_parallel)\<rparr>"

definition EDBComponent_assign_s_param_model ::
  "pyval \<Rightarrow> pyval \<Rightarrow> pyval \<Rightarrow> component \<Rightarrow> component" where
  "EDBComponent_assign_s_param_model file_path model_name reference_net c =
     c\<lparr>comp_model := Some (S_param_model file_path model_name reference_net)\<rparr>"

definition EDBComponent_assign_spice_model :: "pyval \<Rightarrow> pyval \<Rightarrow> component \<Rightarrow> component" where
  "EDBComponent_assign_spice_model file_path model_name c =
     c\<lparr>comp_model := Some (Spice_model file_path model_name)\<rparr>"

text \<open>
  The methods of \<^verbatim>\<open>EDBComponentDef\<close>: each loops over
  \<^verbatim>\<open>list(self.components.values())\<close>, calls the component's method of the same name
  and returns \<^verbatim>\<open>True\<close>. The decorator \<^verbatim>\<open>pyedb_function_handler\<close> is not part of the
  sources; the model is the decorated function's own run.
\<close>

definition EDBComponentDef_assign_rlc_model ::
  "edb \<Rightarrow> string \<Rightarrow> pyval \<Rightarrow> pyval \<Rightarrow> pyval \<Rightarrow> pyval \<Rightarrow> edb \<times> bool" where
  "EDBComponentDef_assign_rlc_model pedb name res ind cap is_parallel =
     (foldl (update_component (EDBComponent_assign_rlc_model res ind cap is_parallel)) pedb
        (map snd (EDBComponentDef_components pedb name)), True)"

definition EDBComponentDef_assign_s_param_model ::
  "edb \<Rightarrow> string \<Rightarrow> pyval \<Rightarrow> pyval \<Rightarrow> pyval \<Rightarrow> edb \<times> bool" where
  "EDBComponentDef_assign_s_param_model pedb name file_path model_name reference_net =
     (foldl (update_component
               (EDBComponent_assign_s_param_model file_path model_name reference_net)) pedb
        (map snd (EDBComponentDef_components pedb name)), True)"

definition EDBComponentDef_assign_spice_model ::
  "edb \<Rightarrow> string \<Rightarrow> pyval \<Rightarrow> pyval \<Rightarrow> edb \<times> bool" where
  "EDBComponentDef_assign_spice_model pedb name file_path model_name =
     (foldl (update_component (EDBComponent_assign_spice_model file_path model_name)) pedb
        (map snd (EDBComponentDef_components pedb name)), True)"

text \<open>
  A component entry that specifies several models leads to several of these calls on
  the component's definition, one after the other. A call is one of the three methods
  with its arguments; \<open>assigned_model\<close> is the model the call asks for.
\<close>

datatype assign_call =
    Assign_rlc pyval pyval pyval pyval
  | Assign_s_param pyval pyval pyval
  | Assign_spice pyval pyval

fun EDBComponentDef_assign :: "edb \<Rightarrow> string \<Rightarrow> assign_call \<Rightarrow> edb \<times> bool" where
  "EDBComponentDef_assign pedb name (Assign_rlc res ind cap is_parallel) =
     EDBComponentDef_assign_rlc_model pedb name res ind cap is_parallel"
| "EDBComponentDef_assign pedb name (Assign_s_param file_path model_name reference_net) =
     EDBComponentDef_assign_s_param_model pedb name file_path model_name reference_net"
| "EDBComponentDef_assign pedb name (Assign_spice file_path model_name) =
     EDBComponentDef_assign_spice_model pedb name file_path model_name"

fun assigned_model :: "assign_call \<Rightarrow> model" where
  "assigned_model (Assign_rlc res ind cap is_parallel) = Rlc_model res ind cap is_parallel"
| "assigned_model (Assign_s_param file_path model_name reference_net) =
     S_param_model file_path model_name reference_net"
| "assigned_model (Assign_spice file_path model_name) = Spice_model file_path model_name"

definition assign_in_turn :: "edb \<Rightarrow> string \<Rightarrow> assign_call list \<Rightarrow> edb" where
  "assign_in_turn pedb name calls =
     foldl (\<lambda>p call. fst (EDBComponentDef_assign p name call)) pedb calls"

text \<open>Two small designs for the examples below.\<close>

definition design_two_resistors :: edb where
  "design_two_resistors =
     \<lparr>layout_components =
        [\<lparr>refdes = ''R1'', part_name = ''RES'', comp_type = ''Resistor'', comp_model = None\<rparr>,
         \<lparr>refdes = ''C1'', part_name = ''CAP'', comp_type = ''Capacitor'', comp_model = None\<rparr>,
         \<lparr>refdes = ''R2'', part_name = ''RES'', comp_type = ''Resistor'', comp_model = None\<rparr>],
      layout_nets = [(''N1'', Unclassified), (''GND'', Unclassified), (''N2'', Unclassified)]\<rparr>"

definition design_mixed :: edb where
  "design_mixed =
     \<lparr>layout_components =
        [\<lparr>refdes = ''X1'', part_name = ''P'', comp_type = ''Resistor'', comp_model = None\<rparr>,
         \<lparr>refdes = ''X2'', part_name = ''P'', comp_type = ''Capacitor'', comp_model = None\<rparr>],
      layout_nets = []\<rparr>"

section \<open>Applying the nets category\<close>

text \<open>
  Modelled from the spec: \<^verbatim>\<open>CfgNets.apply\<close> is missing from the sources. The spec says
  the nets category holds "net names classified as signal/power", that applying a
  category resolves each entry "by name" through the design handle and mutates it
  ("assign classification"), that a name the design does not have is skipped with a
  warning, and that a net not listed remains as it was. The two arguments are the ones
  \<^verbatim>\<open>CfgData.__init__\<close> passes: the signal nets, then the power/ground nets, applied in
  that order; a \<^verbatim>\<open>CfgNets\<close> built without arguments holds no entry.
\<close>

fun net_names :: "pyval \<Rightarrow> string list" where
  "net_names (PList xs) = concat (map (\<lambda>x. case x of PStr s \<Rightarrow> [s] | _ \<Rightarrow> []) xs)"
| "net_names v = []"

definition classify_net :: "net_class \<Rightarrow> edb \<Rightarrow> string \<Rightarrow> edb" where
  "classify_net cls pedb name =
     pedb\<lparr>layout_nets := map (\<lambda>nc. if fst nc = name then (name, cls) else nc) (layout_nets pedb)\<rparr>"

fun CfgNets_apply :: "CfgNets \<Rightarrow> edb \<Rightarrow> edb" where
  "CfgNets_apply (CfgNets [signal_nets, power_ground_nets]) pedb =
     foldl (classify_net Power_ground)
       (foldl (classify_net Signal) pedb (net_names signal_nets))
       (net_names power_ground_nets)"
| "CfgNets_apply (CfgNets args) pedb = pedb"

text \<open>The nets configuration \<^verbatim>\<open>{signal_nets: ["N1"], power_ground_nets: ["GND"]}\<close>.\<close>

definition nets_example :: kwargs where
  "nets_example =
     [(''nets'', PDict [(''signal_nets'', PList [PStr ''N1'']),
                        (''power_ground_nets'', PList [PStr ''GND''])])]"

section \<open>Attribute lookup on a \<^verbatim>\<open>CfgData\<close> object\<close>

text \<open>
  What \<^verbatim>\<open>getattr(cfg, name)\<close> finds: the attributes bound by \<^verbatim>\<open>__init__\<close> (the
  instance dictionary, in the order of first assignment), then what the class body
  defines, which is the method \<^verbatim>\<open>__init__\<close> and nothing else, then what every Python
  object inherits from \<^verbatim>\<open>object\<close>; any other name raises \<^verbatim>\<open>AttributeError\<close>.
\<close>

datatype attr =
    Attr_pedb
  | Attr_edb_comps "(string \<times> component) list"
  | Attr_general CfgGeneral
  | Attr_boundaries boundaries_attr
  | Attr_nets CfgNets
  | Attr_components "CfgComponent list"
  | Attr_padstacks CfgPadstacks
  | Attr_pin_groups "CfgPinGroup list"
  | Attr_ports "CfgPort list"
  | Attr_sources "CfgSources list"
  | Attr_setups "CfgSetup list"
  | Attr_spice_models "CfgSpiceModel list"
  | Attr_value pyval
  | Attr_method string
  | Attr_of_object string

definition CfgData_vars :: "CfgData \<Rightarrow> (string \<times> attr) list" where
  "CfgData_vars cfg =
     [(''pedb'', Attr_pedb),
      (''edb_comps'', Attr_edb_comps (edb_comps cfg)),
      (''general'', Attr_general (general cfg)),
      (''boundaries'', Attr_boundaries (boundaries cfg)),
      (''nets'', Attr_nets (nets cfg)),
      (''components'', Attr_components (components cfg)),
      (''padstacks'', Attr_padstacks (padstacks cfg)),
      (''pin_groups'', Attr_pin_groups (pin_groups cfg)),
      (''ports'', Attr_ports (ports cfg)),
      (''sources'', Attr_sources (sources cfg)),
      (''setups'', Attr_setups (setups cfg)),
      (''stackup'', Attr_value (stackup cfg)),
      (''s_parameters'', Attr_value (s_parameters cfg)),
      (''spice_models'', Attr_spice_models (spice_models cfg)),
      (''package_definition'', Attr_value (package_definition cfg)),
      (''operations'', Attr_value (operations cfg))]"

definition CfgData_methods :: "string list" where
  "CfgData_methods = [''__init__'']"

definition object_attributes :: "string list" where
  "object_attributes =
     [''__class__'', ''__delattr__'', ''__dict__'', ''__dir__'', ''__doc__'', ''__eq__'',
      ''__format__'', ''__ge__'', ''__getattribute__'', ''__getstate__'', ''__gt__'',
      ''__hash__'', ''__init__'', ''__init_subclass__'', ''__le__'', ''__lt__'',
      ''__module__'', ''__ne__'', ''__new__'', ''__reduce__'', ''__reduce_ex__'',
      ''__repr__'', ''__setattr__'', ''__sizeof__'', ''__str__'', ''__subclasshook__'',
      ''__weakref__'']"

definition CfgData_getattr :: "CfgData \<Rightarrow> string \<Rightarrow> py_error + attr" where
  "CfgData_getattr cfg name =
     (case map_of (CfgData_vars cfg) name of
        Some a \<Rightarrow> Inr a
      | None \<Rightarrow>
          if name \<in> set CfgData_methods then Inr (Attr_method name)
          else if name \<in> set object_attributes then Inr (Attr_of_object name)
          else Inl AttributeError)"

section \<open>The apply pass\<close>

text \<open>
  Modelled from the spec: an apply pass over the categories, and the \<^verbatim>\<open>apply\<close> of each
  category, are missing from the sources (\<^verbatim>\<open>CfgData\<close> has no such method and the
  category classes are not at hand). The spec's sections 4.1, 4.2 and 7 describe it: the
  root "invokes each category's apply in dependency order: general, nets, padstacks,
  components, pin groups, ports, sources, setups, spice models, boundaries"; a category
  goes through its entries, each resolving and mutating the design through the external
  handle, whose calls are "individually fallible"; the errors are ConfigurationError,
  ResolutionError and ApplyError; an entity that is not found is "a recoverable warning
  unless explicitly marked required, in which case it aborts"; "required-field
  violations and external apply failures abort the whole apply pass, surfacing the
  failing category and entry identifier to the caller".

  An entry carries its identifier, whether it is required, and what the external handle
  answers when the entry is applied to a design: the design after the mutation, or an
  error. The state of a pass records the design, the entries attempted so far (category
  and identifier, in order), the warnings, and the failure that ended the pass, if any.
\<close>

datatype apply_error = ConfigurationError | ResolutionError | ApplyError

record entry =
  entry_id :: string
  required :: bool
  mutate :: "edb \<Rightarrow> apply_error + edb"

record pass_state =
  design :: edb
  attempted :: "(string \<times> string) list"
  warnings :: "(string \<times> string) list"
  failed :: "(string \<times> string \<times> apply_error) option"

fun apply_entries :: "string \<Rightarrow> entry list \<Rightarrow> pass_state \<Rightarrow> pass_state" where
  "apply_entries c [] s = s"
| "apply_entries c (e # es) s =
     (case mutate e (design s) of
        Inr d \<Rightarrow>
          apply_entries c es (s\<lparr>design := d, attempted := attempted s @ [(c, entry_id e)]\<rparr>)
      | Inl err \<Rightarrow>
          if err = ResolutionError \<and> \<not> required e
          then apply_entries c es
                 (s\<lparr>attempted := attempted s @ [(c, entry_id e)],
                    warnings := warnings s @ [(c, entry_id e)]\<rparr>)
          else s\<lparr>attempted := attempted s @ [(c, entry_id e)],
                 failed := Some (c, entry_id e, err)\<rparr>)"

fun apply_categories :: "(string \<times> entry list) list \<Rightarrow> pass_state \<Rightarrow> pass_state" where
  "apply_categories [] s = s"
| "apply_categories (ce # cs) s =
     (let s' = apply_entries (fst ce) (snd ce) s
      in if failed s' = None then apply_categories cs s' else s')"

record ConfigRoot =
  general_entries :: "entry list"
  nets_entries :: "entry list"
  padstacks_entries :: "entry list"
  components_entries :: "entry list"
  pin_groups_entries :: "entry list"
  ports_entries :: "entry list"
  sources_entries :: "entry list"
  setups_entries :: "entry list"
  spice_models_entries :: "entry list"
  boundaries_entries :: "entry list"

definition categories_in_order :: "ConfigRoot \<Rightarrow> (string \<times> entry list) list" where
  "categories_in_order r =
     [(''general'', general_entries r), (''nets'', nets_entries r),
      (''padstacks'', padstacks_entries r), (''components'', components_entries r),
      (''pin_groups'', pin_groups_entries r), (''ports'', ports_entries r),
      (''sources'', sources_entries r), (''setups'', setups_entries r),
      (''spice_models'', spice_models_entries r), (''boundaries'', boundaries_entries r)]"

definition ConfigRoot_apply :: "ConfigRoot \<Rightarrow> edb \<Rightarrow> pass_state" where
  "ConfigRoot_apply r pedb =
     apply_categories (categories_in_order r)
       \<lparr>design = pedb, attempted = [], warnings = [], failed = None\<rparr>"

text \<open>The state in which a pass starts.\<close>

definition pass_start :: "edb \<Rightarrow> pass_state" where
  "pass_start pedb = \<lparr>design = pedb, attempted = [], warnings = [], failed = None\<rparr>"

text \<open>
  A pass for the examples: the net \<^verbatim>\<open>N9\<close> is not found and is optional, the component
  \<^verbatim>\<open>R1\<close>, optional too, is rejected by the external handle.
\<close>

definition stopping_root :: ConfigRoot where
  "stopping_root =
     \<lparr>general_entries = [],
      nets_entries =
        [\<lparr>entry_id = ''N1'', required = False, mutate = (\<lambda>d. Inr d)\<rparr>,
         \<lparr>entry_id = ''N9'', required = False, mutate = (\<lambda>d. Inl ResolutionError)\<rparr>],
      padstacks_entries = [],
      components_entries =
        [\<lparr>entry_id = ''R1'', required = False, mutate = (\<lambda>d. Inl ApplyError)\<rparr>,
         \<lparr>entry_id = ''R2'', required = False, mutate = (\<lambda>d. Inr d)\<rparr>],
      pin_groups_entries = [],
      ports_entries = [\<lparr>entry_id = ''port1'', required = False, mutate = (\<lambda>d. Inr d)\<rparr>],
      sources_entries = [], setups_entries = [], spice_models_entries = [],
      boundaries_entries = []\<rparr>"

section \<open>Construction: the statements one by one\<close>











text \<open>Construction from the empty mapping: every category at its default.\<close>

lemma CfgData_init_empty:
  "CfgData_init p [] =
     Inr (\<lparr> edb_comps = components_components p, general = CfgGeneral PNone,
            boundaries = Empty_dict, nets = CfgNets [], components = [],
            padstacks = CfgPadstacks PNone, pin_groups = [], ports = [], sources = [],
            setups = [CfgSetup []], stackup = PNone, s_parameters = PNone,
            spice_models = [], package_definition = PNone, operations = PNone \<rparr>, p)"
  by (simp add: CfgData_init_def Let_def bind_err_def dict_get_def init_nets_def
        init_components_def init_pin_groups_def init_ports_def init_sources_def
        init_setups_def init_spice_models_def)

section \<open>Missing optional keys\<close>



text \<open>
  The constructor validates nothing, so an input that is not well-formed can raise
  whatever keys are absent: \<^verbatim>\<open>CfgData(pedb, components=5)\<close> raises \<^verbatim>\<open>TypeError\<close> when it
  iterates over \<^verbatim>\<open>5\<close>.
\<close>

lemma CfgData_init_ill_formed_raises:
  "CfgData_init \<lparr>layout_components = [], layout_nets = []\<rparr> [(''components'', PInt 5)]
     = Inl TypeError"
  by (simp add: CfgData_init_def Let_def bind_err_def dict_get_def init_nets_def
        init_components_def)

section \<open>Construction and the design handle\<close>

text \<open>
  Claim C2 says construction performs no read of the design. It does perform one:
  \<^verbatim>\<open>self.edb_comps = self.pedb.components.components\<close>. Constructed from the same (empty)
  mapping against a design without components and against a design holding the resistor
  \<^verbatim>\<open>R1\<close>, the two objects differ in \<^verbatim>\<open>edb_comps\<close>.
\<close>

theorem CfgData_init_reads_design_counterexample:
  "map_sum id (\<lambda>r. edb_comps (fst r))
      (CfgData_init \<lparr>layout_components = [], layout_nets = []\<rparr> []) = Inr [] \<and>
   map_sum id (\<lambda>r. edb_comps (fst r))
      (CfgData_init \<lparr>layout_components =
          [\<lparr>refdes = ''R1'', part_name = ''RES'', comp_type = ''Resistor'', comp_model = None\<rparr>],
          layout_nets = []\<rparr> [])
     = Inr [(''R1'', \<lparr>refdes = ''R1'', part_name = ''RES'', comp_type = ''Resistor'',
                      comp_model = None\<rparr>)]"
  by (simp add: CfgData_init_def Let_def bind_err_def dict_get_def init_nets_def
        init_components_def init_pin_groups_def init_ports_def init_sources_def
        init_setups_def init_spice_models_def components_components_def dict_of_def
        dict_set_def)

text \<open>
  Claim C2, as the code has it. Construction never changes the design, and the only thing
  it reads from it is the component dictionary it keeps as \<^verbatim>\<open>edb_comps\<close>. Everything
  else (whether construction raises, which exception, and every other attribute of the
  constructed object) is the same whatever the design holds: no net name or reference
  designator of the mapping is looked up in the design during construction.
\<close>

theorem CfgData_init_frame:
  "(\<forall>cfg d. CfgData_init pedb kw = Inr (cfg, d) \<longrightarrow>
       d = pedb \<and> edb_comps cfg = components_components pedb) \<and>
   map_sum id (\<lambda>r. (fst r)\<lparr>edb_comps := []\<rparr>) (CfgData_init pedb kw) =
   map_sum id (\<lambda>r. (fst r)\<lparr>edb_comps := []\<rparr>) (CfgData_init pedb' kw)"
  by (auto simp: CfgData_init_def Let_def bind_err_def split: sum.splits)

text \<open>
  The theorem at a design holding \<^verbatim>\<open>R1\<close> and the empty mapping: construction succeeds
  there, the design is unchanged and \<^verbatim>\<open>edb_comps\<close> is its component dictionary.
\<close>

theorem CfgData_init_frame_witness:
  "\<exists>cfg d. CfgData_init \<lparr>layout_components =
          [\<lparr>refdes = ''R1'', part_name = ''RES'', comp_type = ''Resistor'', comp_model = None\<rparr>],
          layout_nets = []\<rparr> [] = Inr (cfg, d) \<and>
      d = \<lparr>layout_components =
          [\<lparr>refdes = ''R1'', part_name = ''RES'', comp_type = ''Resistor'', comp_model = None\<rparr>],
          layout_nets = []\<rparr> \<and>
      edb_comps cfg = [(''R1'', \<lparr>refdes = ''R1'', part_name = ''RES'',
                                  comp_type = ''Resistor'', comp_model = None\<rparr>)]"
proof -
  let ?p = "\<lparr>layout_components =
          [\<lparr>refdes = ''R1'', part_name = ''RES'', comp_type = ''Resistor'', comp_model = None\<rparr>],
          layout_nets = []\<rparr>"
  obtain cfg where c: "CfgData_init ?p [] = Inr (cfg, ?p)"
    using CfgData_init_empty [of ?p] by blast
  from CfgData_init_frame [of ?p "[]" ?p] c
  have "edb_comps cfg = components_components ?p" by blast
  then have "edb_comps cfg = [(''R1'', \<lparr>refdes = ''R1'', part_name = ''RES'',
                                  comp_type = ''Resistor'', comp_model = None\<rparr>)]"
    by (simp add: components_components_def dict_of_def dict_set_def)
  with c show ?thesis by blast
qed

section \<open>The boundaries attribute\<close>

text \<open>
  Claim C9. Whenever construction succeeds, \<^verbatim>\<open>boundaries\<close> is the plain empty dictionary
  if the key \<^verbatim>\<open>"boundaries"\<close> is absent or maps to a falsy value, and it is
  \<^verbatim>\<open>CfgBoundaries(self, v)\<close> if the key maps to a truthy value \<^verbatim>\<open>v\<close>; a
  \<^verbatim>\<open>CfgBoundaries\<close> object arises in no other way.
\<close>

theorem CfgData_boundaries:
  assumes "CfgData_init pedb kw = Inr (cfg, d)"
  shows "(map_of kw ''boundaries'' = None \<longrightarrow> boundaries cfg = Empty_dict) \<and>
         (\<forall>v. map_of kw ''boundaries'' = Some v \<and> \<not> truthy v \<longrightarrow>
              boundaries cfg = Empty_dict) \<and>
         (\<forall>v. map_of kw ''boundaries'' = Some v \<and> truthy v \<longrightarrow>
              boundaries cfg = Boundaries (CfgBoundaries v)) \<and>
         (\<forall>b. boundaries cfg = Boundaries b \<longrightarrow>
              (\<exists>v. map_of kw ''boundaries'' = Some v \<and> truthy v \<and> b = CfgBoundaries v))"
proof -
  from assms have "boundaries cfg =
      (if truthy (dict_get kw ''boundaries'' PNone)
       then Boundaries (CfgBoundaries (dict_get kw ''boundaries'' PNone)) else Empty_dict)"
    by (auto simp: CfgData_init_def Let_def bind_err_def split: sum.splits)
  then show ?thesis
    by (auto simp: dict_get_def split: option.splits if_splits)
qed

text \<open>
  The theorem at three mappings: \<^verbatim>\<open>{"boundaries": {"open_region": True}}\<close> gives a
  \<^verbatim>\<open>CfgBoundaries\<close> object, \<^verbatim>\<open>{"boundaries": {}}\<close> and \<^verbatim>\<open>{}\<close> give the plain
  empty dictionary.
\<close>

theorem CfgData_boundaries_witness:
  "(\<exists>cfg d. CfgData_init \<lparr>layout_components = [], layout_nets = []\<rparr>
         [(''boundaries'', PDict [(''open_region'', PBool True)])] = Inr (cfg, d) \<and>
      boundaries cfg = Boundaries (CfgBoundaries (PDict [(''open_region'', PBool True)]))) \<and>
   (\<exists>cfg d. CfgData_init \<lparr>layout_components = [], layout_nets = []\<rparr>
         [(''boundaries'', PDict [])] = Inr (cfg, d) \<and> boundaries cfg = Empty_dict) \<and>
   (\<exists>cfg d. CfgData_init \<lparr>layout_components = [], layout_nets = []\<rparr> [] = Inr (cfg, d) \<and>
      boundaries cfg = Empty_dict)"
proof -
  let ?p = "\<lparr>layout_components = [], layout_nets = []\<rparr>"
  let ?k1 = "[(''boundaries'', PDict [(''open_region'', PBool True)])]"
  let ?k2 = "[(''boundaries'', PDict [])]"
  have "\<exists>c1. CfgData_init ?p ?k1 = Inr (c1, ?p)"
    by (simp add: CfgData_init_def Let_def bind_err_def dict_get_def init_nets_def
        init_components_def init_pin_groups_def init_ports_def init_sources_def
        init_setups_def init_spice_models_def)
  then obtain c1 where c1: "CfgData_init ?p ?k1 = Inr (c1, ?p)" ..
  have "\<exists>c2. CfgData_init ?p ?k2 = Inr (c2, ?p)"
    by (simp add: CfgData_init_def Let_def bind_err_def dict_get_def init_nets_def
        init_components_def init_pin_groups_def init_ports_def init_sources_def
        init_setups_def init_spice_models_def)
  then obtain c2 where c2: "CfgData_init ?p ?k2 = Inr (c2, ?p)" ..
  obtain c3 where c3: "CfgData_init ?p [] = Inr (c3, ?p)"
    using CfgData_init_empty [of ?p] by blast
  have m1: "map_of ?k1 ''boundaries'' = Some (PDict [(''open_region'', PBool True)])
            \<and> truthy (PDict [(''open_region'', PBool True)])"
    by simp
  have m2: "map_of ?k2 ''boundaries'' = Some (PDict []) \<and> \<not> truthy (PDict [])"
    by simp
  have m3: "map_of ([] :: kwargs) ''boundaries'' = None"
    by simp
  have b1: "boundaries c1 = Boundaries (CfgBoundaries (PDict [(''open_region'', PBool True)]))"
    using CfgData_boundaries [OF c1] m1 by blast
  have b2: "boundaries c2 = Empty_dict"
    using CfgData_boundaries [OF c2] m2 by blast
  have b3: "boundaries c3 = Empty_dict"
    using CfgData_boundaries [OF c3] m3 by blast
  from c1 b1 have g1: "\<exists>cfg d. CfgData_init ?p ?k1 = Inr (cfg, d) \<and>
      boundaries cfg = Boundaries (CfgBoundaries (PDict [(''open_region'', PBool True)]))"
    by blast
  from c2 b2 have g2: "\<exists>cfg d. CfgData_init ?p ?k2 = Inr (cfg, d) \<and> boundaries cfg = Empty_dict"
    by blast
  from c3 b3 have g3: "\<exists>cfg d. CfgData_init ?p [] = Inr (cfg, d) \<and> boundaries cfg = Empty_dict"
    by blast
  from g1 g2 g3 show ?thesis by (intro conjI)
qed

section \<open>Dictionaries built from sequences\<close>

lemma dict_set_subset: "set (dict_set d k v) \<subseteq> insert (k, v) (set d)"
  unfolding dict_set_def by (cases "k \<in> fst ` set d") auto

lemma dict_set_nonempty: "dict_set d k v \<noteq> []"
  unfolding dict_set_def by (cases "k \<in> fst ` set d") auto

lemma foldl_dict_set_nonempty:
  "d \<noteq> [] \<Longrightarrow> foldl (\<lambda>d kv. dict_set d (fst kv) (snd kv)) d kvs \<noteq> []"
  by (induction kvs arbitrary: d) (simp_all add: dict_set_nonempty)

lemma dict_of_empty_iff: "dict_of kvs = [] \<longleftrightarrow> kvs = []"
  by (cases kvs) (simp_all add: dict_of_def foldl_dict_set_nonempty dict_set_nonempty)

lemma foldl_dict_set_subset:
  "set (foldl (\<lambda>d kv. dict_set d (fst kv) (snd kv)) d kvs) \<subseteq> set d \<union> set kvs"
proof (induction kvs arbitrary: d)
  case Nil
  then show ?case by simp
next
  case (Cons kv kvs)
  have "set (foldl (\<lambda>d kv. dict_set d (fst kv) (snd kv)) (dict_set d (fst kv) (snd kv)) kvs)
        \<subseteq> set (dict_set d (fst kv) (snd kv)) \<union> set kvs"
    by (rule Cons.IH)
  moreover have "set (dict_set d (fst kv) (snd kv)) \<subseteq> insert kv (set d)"
    using dict_set_subset [of d "fst kv" "snd kv"] by simp
  ultimately show ?case by auto
qed

lemma dict_of_subset: "set (dict_of kvs) \<subseteq> set kvs"
  using foldl_dict_set_subset [of "[]" kvs] by (simp add: dict_of_def)

section \<open>The components of a definition\<close>

lemma components_indices:
  "kv \<in> set (EDBComponentDef_components pedb name) \<Longrightarrow>
   snd kv < length (layout_components pedb) \<and> part_name (layout_components pedb ! snd kv) = name"
proof -
  assume "kv \<in> set (EDBComponentDef_components pedb name)"
  then have "kv \<in> set (map (\<lambda>i. (refdes (layout_components pedb ! i), i))
       (FindByComponentDef pedb name))"
    using dict_of_subset unfolding EDBComponentDef_components_def by blast
  then show ?thesis by (auto simp: FindByComponentDef_def)
qed

lemma components_empty_iff:
  "EDBComponentDef_components pedb name = [] \<longleftrightarrow> FindByComponentDef pedb name = []"
  by (simp add: EDBComponentDef_components_def dict_of_empty_iff)

lemma remdups_single: "xs \<noteq> [] \<Longrightarrow> \<forall>x\<in>set xs. x = t \<Longrightarrow> length (remdups xs) = 1"
proof -
  assume "xs \<noteq> []" "\<forall>x\<in>set xs. x = t"
  then have "set xs = {t}" by (cases xs) auto
  then have "card (set xs) = 1" by simp
  then show ?thesis by (simp add: length_remdups_card_conv)
qed

lemma remdups_two: "a \<in> set xs \<Longrightarrow> b \<in> set xs \<Longrightarrow> a \<noteq> b \<Longrightarrow> 1 < length (remdups xs)"
proof -
  assume a: "a \<in> set xs" "b \<in> set xs" "a \<noteq> b"
  then have "{a, b} \<subseteq> set xs" by simp
  then have "card {a, b} \<le> card (set xs)" by (intro card_mono) auto
  with a show ?thesis by (simp add: length_remdups_card_conv)
qed

lemma type_none:
  "EDBComponentDef_components pedb name = [] \<Longrightarrow> EDBComponentDef_type pedb name = None"
  by (simp add: EDBComponentDef_type_def)

lemma type_shared:
  assumes "EDBComponentDef_components pedb name \<noteq> []"
    and "\<forall>kv\<in>set (EDBComponentDef_components pedb name).
            comp_type (layout_components pedb ! snd kv) = t"
  shows "EDBComponentDef_type pedb name = Some t"
proof -
  let ?ts = "map (\<lambda>kv. comp_type (layout_components pedb ! snd kv))
               (EDBComponentDef_components pedb name)"
  have "length (remdups ?ts) = 1"
    using assms by (intro remdups_single [where t = t]) auto
  moreover have "hd (EDBComponentDef_components pedb name)
      \<in> set (EDBComponentDef_components pedb name)"
    using assms(1) by simp
  ultimately show ?thesis using assms(2) by (simp add: EDBComponentDef_type_def)
qed

lemma type_mixed:
  assumes "kv \<in> set (EDBComponentDef_components pedb name)"
    and "kv' \<in> set (EDBComponentDef_components pedb name)"
    and "comp_type (layout_components pedb ! snd kv) \<noteq>
         comp_type (layout_components pedb ! snd kv')"
  shows "EDBComponentDef_type pedb name = Some ''mixed''"
proof -
  let ?ts = "map (\<lambda>kv. comp_type (layout_components pedb ! snd kv))
               (EDBComponentDef_components pedb name)"
  have "1 < length (remdups ?ts)"
    using assms by (intro remdups_two [OF _ _ assms(3)]) auto
  moreover have "EDBComponentDef_components pedb name \<noteq> []"
    using assms(1) by auto
  ultimately show ?thesis by (simp add: EDBComponentDef_type_def)
qed

section \<open>Loops that change the components of a definition\<close>

lemma update_component_length:
  "length (layout_components (update_component f pedb i)) = length (layout_components pedb)"
  by (simp add: update_component_def)

lemma foldl_update_length:
  "length (layout_components (foldl (update_component f) pedb is)) =
   length (layout_components pedb)"
  by (induction "is" arbitrary: pedb) (simp_all add: update_component_length)

lemma update_component_nth:
  "j < length (layout_components pedb) \<Longrightarrow>
   layout_components (update_component f pedb i) ! j =
     (if j = i then f (layout_components pedb ! j) else layout_components pedb ! j)"
  by (simp add: update_component_def nth_list_update)

lemma foldl_update_outside:
  "j < length (layout_components pedb) \<Longrightarrow> j \<notin> set is \<Longrightarrow>
   layout_components (foldl (update_component f) pedb is) ! j = layout_components pedb ! j"
proof (induction "is" arbitrary: pedb)
  case Nil
  then show ?case by simp
next
  case (Cons i "is")
  have "layout_components (foldl (update_component f) (update_component f pedb i) is) ! j
        = layout_components (update_component f pedb i) ! j"
    using Cons.prems by (intro Cons.IH) (simp_all add: update_component_length)
  also have "\<dots> = layout_components pedb ! j"
    using Cons.prems by (simp add: update_component_nth)
  finally show ?case by simp
qed

lemma foldl_update_invariant:
  assumes "\<And>c. Q (f c) = Q c"
  shows "j < length (layout_components pedb) \<Longrightarrow>
   Q (layout_components (foldl (update_component f) pedb is) ! j) = Q (layout_components pedb ! j)"
proof (induction "is" arbitrary: pedb)
  case Nil
  then show ?case by simp
next
  case (Cons i "is")
  have "Q (layout_components (foldl (update_component f) (update_component f pedb i) is) ! j)
        = Q (layout_components (update_component f pedb i) ! j)"
    using Cons.prems by (intro Cons.IH) (simp add: update_component_length)
  also have "\<dots> = Q (layout_components pedb ! j)"
    using Cons.prems assms by (simp add: update_component_nth)
  finally show ?case by simp
qed

lemma foldl_update_inside:
  assumes "\<And>c. P (f c)"
  shows "j < length (layout_components pedb) \<Longrightarrow> j \<in> set is \<Longrightarrow>
   P (layout_components (foldl (update_component f) pedb is) ! j)"
proof (induction "is" arbitrary: pedb)
  case Nil
  then show ?case by simp
next
  case (Cons i "is")
  let ?p = "update_component f pedb i"
  have len: "j < length (layout_components ?p)"
    using Cons.prems by (simp add: update_component_length)
  show ?case
  proof (cases "j \<in> set is")
    case True
    with len have "P (layout_components (foldl (update_component f) ?p is) ! j)"
      by (rule Cons.IH)
    then show ?thesis by simp
  next
    case False
    with Cons.prems have ji: "j = i" by simp
    have "layout_components (foldl (update_component f) ?p is) ! j = layout_components ?p ! j"
      using len False by (rule foldl_update_outside)
    also have "\<dots> = f (layout_components pedb ! j)"
      using Cons.prems ji by (simp add: update_component_nth)
    finally show ?thesis using assms by simp
  qed
qed

lemma FindByComponentDef_cong:
  assumes "length (layout_components p') = length (layout_components p)"
    and "\<And>j. j < length (layout_components p) \<Longrightarrow>
           part_name (layout_components p' ! j) = part_name (layout_components p ! j)"
  shows "FindByComponentDef p' name = FindByComponentDef p name"
  unfolding FindByComponentDef_def using assms by (auto intro: filter_cong)

lemma components_cong:
  assumes "length (layout_components p') = length (layout_components p)"
    and "\<And>j. j < length (layout_components p) \<Longrightarrow>
           part_name (layout_components p' ! j) = part_name (layout_components p ! j)"
    and "\<And>j. j < length (layout_components p) \<Longrightarrow>
           refdes (layout_components p' ! j) = refdes (layout_components p ! j)"
  shows "EDBComponentDef_components p' name = EDBComponentDef_components p name"
proof -
  have f: "FindByComponentDef p' name = FindByComponentDef p name"
    using assms(1,2) by (rule FindByComponentDef_cong)
  have m: "map (\<lambda>i. (refdes (layout_components p' ! i), i)) (FindByComponentDef p name) =
        map (\<lambda>i. (refdes (layout_components p ! i), i)) (FindByComponentDef p name)"
    using assms(3) by (auto simp: FindByComponentDef_def)
  show ?thesis unfolding EDBComponentDef_components_def f m ..
qed

lemma foldl_update_components:
  assumes "\<And>c. part_name (f c) = part_name c" and "\<And>c. refdes (f c) = refdes c"
  shows "EDBComponentDef_components (foldl (update_component f) pedb is) name =
         EDBComponentDef_components pedb name"
proof (rule components_cong)
  show "length (layout_components (foldl (update_component f) pedb is)) =
        length (layout_components pedb)"
    by (rule foldl_update_length)
next
  fix j assume "j < length (layout_components pedb)"
  then show "part_name (layout_components (foldl (update_component f) pedb is) ! j) =
             part_name (layout_components pedb ! j)"
    using assms(1) by (rule foldl_update_invariant [rotated])
next
  fix j assume "j < length (layout_components pedb)"
  then show "refdes (layout_components (foldl (update_component f) pedb is) ! j) =
             refdes (layout_components pedb ! j)"
    using assms(2) by (rule foldl_update_invariant [rotated])
qed

lemma design_two_resistors_components:
  "EDBComponentDef_components design_two_resistors ''RES'' = [(''R1'', 0), (''R2'', 2)]"
  by code_simp

lemma design_mixed_components:
  "EDBComponentDef_components design_mixed ''P'' = [(''X1'', 0), (''X2'', 1)]"
  by code_simp

lemma design_two_resistors_no_ic:
  "EDBComponentDef_components design_two_resistors ''IC'' = []"
  by code_simp

section \<open>The type of a component definition\<close>

text \<open>
  Claim C10. Reading \<^verbatim>\<open>type\<close> gives \<^verbatim>\<open>None\<close> when the definition has no components,
  the shared type when all its components have the same type \<open>t\<close>, and \<^verbatim>\<open>"mixed"\<close> when
  two of them differ in type. After \<^verbatim>\<open>type\<close> is set to \<open>v\<close> on a definition that has a
  component, reading it gives \<open>v\<close>, for every component-level assignment that stores the
  type it is given and leaves the component's reference designator and definition alone.
\<close>

theorem EDBComponentDef_type_spec:
  "(EDBComponentDef_components pedb name = [] \<longrightarrow> EDBComponentDef_type pedb name = None) \<and>
   (EDBComponentDef_components pedb name \<noteq> [] \<and>
      (\<forall>kv\<in>set (EDBComponentDef_components pedb name).
          comp_type (layout_components pedb ! snd kv) = t) \<longrightarrow>
      EDBComponentDef_type pedb name = Some t) \<and>
   ((\<exists>kv\<in>set (EDBComponentDef_components pedb name).
       \<exists>kv'\<in>set (EDBComponentDef_components pedb name).
          comp_type (layout_components pedb ! snd kv) \<noteq>
          comp_type (layout_components pedb ! snd kv')) \<longrightarrow>
      EDBComponentDef_type pedb name = Some ''mixed'') \<and>
   ((\<forall>c. comp_type (set_type v c) = v \<and> part_name (set_type v c) = part_name c \<and>
          refdes (set_type v c) = refdes c) \<and>
      EDBComponentDef_components pedb name \<noteq> [] \<longrightarrow>
      EDBComponentDef_type (EDBComponentDef_type_setter set_type pedb name v) name = Some v)"
proof (intro conjI impI)
  assume "EDBComponentDef_components pedb name = []"
  then show "EDBComponentDef_type pedb name = None" by (rule type_none)
next
  assume "EDBComponentDef_components pedb name \<noteq> [] \<and>
      (\<forall>kv\<in>set (EDBComponentDef_components pedb name).
          comp_type (layout_components pedb ! snd kv) = t)"
  then show "EDBComponentDef_type pedb name = Some t" using type_shared by blast
next
  assume "\<exists>kv\<in>set (EDBComponentDef_components pedb name).
       \<exists>kv'\<in>set (EDBComponentDef_components pedb name).
          comp_type (layout_components pedb ! snd kv) \<noteq>
          comp_type (layout_components pedb ! snd kv')"
  then show "EDBComponentDef_type pedb name = Some ''mixed''" using type_mixed by blast
next
  assume a: "(\<forall>c. comp_type (set_type v c) = v \<and> part_name (set_type v c) = part_name c \<and>
          refdes (set_type v c) = refdes c) \<and> EDBComponentDef_components pedb name \<noteq> []"
  let ?is = "map snd (EDBComponentDef_components pedb name)"
  let ?p = "EDBComponentDef_type_setter set_type pedb name v"
  have same: "EDBComponentDef_components ?p name = EDBComponentDef_components pedb name"
    unfolding EDBComponentDef_type_setter_def using a by (intro foldl_update_components) auto
  have "\<forall>kv\<in>set (EDBComponentDef_components ?p name).
          comp_type (layout_components ?p ! snd kv) = v"
  proof
    fix kv assume "kv \<in> set (EDBComponentDef_components ?p name)"
    with same have kv: "kv \<in> set (EDBComponentDef_components pedb name)" by simp
    then have "snd kv < length (layout_components pedb)" using components_indices by blast
    moreover from kv have "snd kv \<in> set ?is" by simp
    moreover have "\<And>c. comp_type (set_type v c) = v" using a by simp
    ultimately show "comp_type (layout_components ?p ! snd kv) = v"
      unfolding EDBComponentDef_type_setter_def
      by (intro foldl_update_inside [where P = "\<lambda>c. comp_type c = v"])
  qed
  moreover have "EDBComponentDef_components ?p name \<noteq> []" using same a by simp
  ultimately show "EDBComponentDef_type ?p name = Some v" by (rule type_shared [rotated])
qed

text \<open>
  The theorem at concrete designs: no component of definition \<^verbatim>\<open>IC\<close>, two resistors
  under \<^verbatim>\<open>RES\<close>, a resistor and a capacitor under \<^verbatim>\<open>P\<close>, and \<^verbatim>\<open>P\<close> after its type is
  set to \<^verbatim>\<open>Inductor\<close> by plain attribute assignment.
\<close>

theorem EDBComponentDef_type_spec_witness:
  "EDBComponentDef_type design_two_resistors ''IC'' = None \<and>
   EDBComponentDef_type design_two_resistors ''RES'' = Some ''Resistor'' \<and>
   EDBComponentDef_type design_mixed ''P'' = Some ''mixed'' \<and>
   EDBComponentDef_type
     (EDBComponentDef_type_setter (\<lambda>v c. c\<lparr>comp_type := v\<rparr>) design_mixed ''P'' ''Inductor'')
     ''P'' = Some ''Inductor''"
proof (intro conjI)
  show "EDBComponentDef_type design_two_resistors ''IC'' = None"
    using EDBComponentDef_type_spec [of design_two_resistors "''IC''"]
      design_two_resistors_no_ic by blast
next
  have "\<forall>kv\<in>set (EDBComponentDef_components design_two_resistors ''RES'').
          comp_type (layout_components design_two_resistors ! snd kv) = ''Resistor''"
    unfolding design_two_resistors_components by (simp add: design_two_resistors_def)
  moreover have "EDBComponentDef_components design_two_resistors ''RES'' \<noteq> []"
    unfolding design_two_resistors_components by simp
  ultimately show "EDBComponentDef_type design_two_resistors ''RES'' = Some ''Resistor''"
    using EDBComponentDef_type_spec [of design_two_resistors "''RES''" "''Resistor''"]
    by blast
next
  have "(''X1'', 0) \<in> set (EDBComponentDef_components design_mixed ''P'')"
    and "(''X2'', 1) \<in> set (EDBComponentDef_components design_mixed ''P'')"
    unfolding design_mixed_components by simp_all
  moreover have "comp_type (layout_components design_mixed ! snd (''X1'', 0::nat)) \<noteq>
                 comp_type (layout_components design_mixed ! snd (''X2'', 1::nat))"
    by (simp add: design_mixed_def)
  ultimately show "EDBComponentDef_type design_mixed ''P'' = Some ''mixed''"
    using EDBComponentDef_type_spec [of design_mixed "''P''"] by blast
next
  have "EDBComponentDef_components design_mixed ''P'' \<noteq> []"
    unfolding design_mixed_components by simp
  moreover have "\<forall>c. comp_type (c\<lparr>comp_type := ''Inductor''\<rparr>) = ''Inductor'' \<and>
        part_name (c\<lparr>comp_type := ''Inductor''\<rparr>) = part_name c \<and>
        refdes (c\<lparr>comp_type := ''Inductor''\<rparr>) = refdes c"
    by simp
  ultimately show "EDBComponentDef_type
     (EDBComponentDef_type_setter (\<lambda>v c. c\<lparr>comp_type := v\<rparr>) design_mixed ''P'' ''Inductor'')
     ''P'' = Some ''Inductor''"
    using EDBComponentDef_type_spec [of design_mixed "''P''" _
        "\<lambda>v c. c\<lparr>comp_type := v\<rparr>" "''Inductor''"]
    by blast
qed

section \<open>Model assignment\<close>

lemma assign_rlc_components:
  "EDBComponentDef_components (fst (EDBComponentDef_assign_rlc_model p name r l c par)) name' =
   EDBComponentDef_components p name'"
  unfolding EDBComponentDef_assign_rlc_model_def fst_conv
  by (rule foldl_update_components) (simp_all add: EDBComponent_assign_rlc_model_def)

lemma assign_s_param_components:
  "EDBComponentDef_components (fst (EDBComponentDef_assign_s_param_model p name f m r)) name' =
   EDBComponentDef_components p name'"
  unfolding EDBComponentDef_assign_s_param_model_def fst_conv
  by (rule foldl_update_components) (simp_all add: EDBComponent_assign_s_param_model_def)

lemma assign_rlc_model_sets:
  assumes "kv \<in> set (EDBComponentDef_components p name)"
  shows "comp_model (layout_components
           (fst (EDBComponentDef_assign_rlc_model p name r l c par)) ! snd kv) =
         Some (Rlc_model r l c par)"
proof -
  have "snd kv < length (layout_components p)" using assms components_indices by blast
  moreover have "snd kv \<in> set (map snd (EDBComponentDef_components p name))"
    using assms by simp
  moreover have "\<And>x. comp_model (EDBComponent_assign_rlc_model r l c par x) =
      Some (Rlc_model r l c par)"
    by (simp add: EDBComponent_assign_rlc_model_def)
  ultimately show ?thesis
    unfolding EDBComponentDef_assign_rlc_model_def fst_conv
    by (intro foldl_update_inside [where P = "\<lambda>x. comp_model x = Some (Rlc_model r l c par)"])
qed

lemma assign_s_param_model_sets:
  assumes "kv \<in> set (EDBComponentDef_components p name)"
  shows "comp_model (layout_components
           (fst (EDBComponentDef_assign_s_param_model p name f m r)) ! snd kv) =
         Some (S_param_model f m r)"
proof -
  have "snd kv < length (layout_components p)" using assms components_indices by blast
  moreover have "snd kv \<in> set (map snd (EDBComponentDef_components p name))"
    using assms by simp
  moreover have "\<And>x. comp_model (EDBComponent_assign_s_param_model f m r x) =
      Some (S_param_model f m r)"
    by (simp add: EDBComponent_assign_s_param_model_def)
  ultimately show ?thesis
    unfolding EDBComponentDef_assign_s_param_model_def fst_conv
    by (intro foldl_update_inside [where P = "\<lambda>x. comp_model x = Some (S_param_model f m r)"])
qed

lemma assign_spice_components:
  "EDBComponentDef_components (fst (EDBComponentDef_assign_spice_model p name f m)) name' =
   EDBComponentDef_components p name'"
  unfolding EDBComponentDef_assign_spice_model_def fst_conv
  by (rule foldl_update_components) (simp_all add: EDBComponent_assign_spice_model_def)

lemma assign_spice_model_sets:
  assumes "kv \<in> set (EDBComponentDef_components p name)"
  shows "comp_model (layout_components
           (fst (EDBComponentDef_assign_spice_model p name f m)) ! snd kv) =
         Some (Spice_model f m)"
proof -
  have "snd kv < length (layout_components p)" using assms components_indices by blast
  moreover have "snd kv \<in> set (map snd (EDBComponentDef_components p name))"
    using assms by simp
  moreover have "\<And>x. comp_model (EDBComponent_assign_spice_model f m x) =
      Some (Spice_model f m)"
    by (simp add: EDBComponent_assign_spice_model_def)
  ultimately show ?thesis
    unfolding EDBComponentDef_assign_spice_model_def fst_conv
    by (intro foldl_update_inside [where P = "\<lambda>x. comp_model x = Some (Spice_model f m)"])
qed

lemma assign_components:
  "EDBComponentDef_components (fst (EDBComponentDef_assign p name call)) name' =
   EDBComponentDef_components p name'"
  by (cases call)
    (simp_all add: assign_rlc_components assign_s_param_components assign_spice_components)

lemma assign_sets:
  "kv \<in> set (EDBComponentDef_components p name) \<Longrightarrow>
   comp_model (layout_components (fst (EDBComponentDef_assign p name call)) ! snd kv) =
     Some (assigned_model call)"
  by (cases call)
    (simp_all add: assign_rlc_model_sets assign_s_param_model_sets assign_spice_model_sets)

lemma assign_returns_True: "snd (EDBComponentDef_assign p name call) = True"
  by (cases call)
    (simp_all add: EDBComponentDef_assign_rlc_model_def
       EDBComponentDef_assign_s_param_model_def EDBComponentDef_assign_spice_model_def)

lemma assign_in_turn_snoc:
  "assign_in_turn p name (calls @ [call]) =
   fst (EDBComponentDef_assign (assign_in_turn p name calls) name call)"
  by (simp add: assign_in_turn_def)

lemma assign_in_turn_components:
  "EDBComponentDef_components (assign_in_turn p name calls) name' =
   EDBComponentDef_components p name'"
proof (induction calls rule: rev_induct)
  case Nil
  then show ?case by (simp add: assign_in_turn_def)
next
  case (snoc call calls)
  then show ?case by (simp add: assign_in_turn_snoc assign_components)
qed

text \<open>
  Claim C5. Whatever models are assigned through a component definition, in whatever
  number and order (RLC, S-parameter or SPICE), every component of the definition ends
  with one model, the one of the call made last; the definition keeps its components
  throughout.
\<close>

theorem assign_model_last_wins:
  assumes "calls \<noteq> []" and "kv \<in> set (EDBComponentDef_components pedb name)"
  shows "comp_model (layout_components (assign_in_turn pedb name calls) ! snd kv) =
           Some (assigned_model (last calls)) \<and>
         EDBComponentDef_components (assign_in_turn pedb name calls) name =
           EDBComponentDef_components pedb name"
proof -
  from assms(1) obtain cs c where cs: "calls = cs @ [c]"
    by (cases calls rule: rev_cases) auto
  have "kv \<in> set (EDBComponentDef_components (assign_in_turn pedb name cs) name)"
    using assms(2) by (simp add: assign_in_turn_components)
  then have "comp_model (layout_components
         (fst (EDBComponentDef_assign (assign_in_turn pedb name cs) name c)) ! snd kv) =
       Some (assigned_model c)"
    by (rule assign_sets)
  then show ?thesis by (simp add: cs assign_in_turn_snoc assign_in_turn_components assign_components)
qed

text \<open>
  The theorem at the design with two resistors: an RLC model followed by a SPICE model;
  SPICE, S-parameter and RLC in that order; an RLC model followed by an S-parameter
  model.
\<close>

theorem assign_model_last_wins_witness:
  "comp_model (layout_components
     (assign_in_turn design_two_resistors ''RES''
        [Assign_rlc (PInt 50) PNone PNone (PBool False),
         Assign_spice (PStr ''r.sp'') (PStr ''RMODEL'')]) ! 2) =
     Some (Spice_model (PStr ''r.sp'') (PStr ''RMODEL'')) \<and>
   comp_model (layout_components
     (assign_in_turn design_two_resistors ''RES''
        [Assign_spice (PStr ''r.sp'') (PStr ''RMODEL''),
         Assign_s_param (PStr ''a.s2p'') PNone (PStr ''GND''),
         Assign_rlc (PInt 50) PNone PNone (PBool False)]) ! 2) =
     Some (Rlc_model (PInt 50) PNone PNone (PBool False)) \<and>
   comp_model (layout_components
     (assign_in_turn design_two_resistors ''RES''
        [Assign_rlc (PInt 50) PNone PNone (PBool False),
         Assign_s_param (PStr ''a.s2p'') PNone (PStr ''GND'')]) ! 0) =
     Some (S_param_model (PStr ''a.s2p'') PNone (PStr ''GND''))"
proof -
  have r2: "(''R2'', 2) \<in> set (EDBComponentDef_components design_two_resistors ''RES'')"
    and r1: "(''R1'', 0) \<in> set (EDBComponentDef_components design_two_resistors ''RES'')"
    unfolding design_two_resistors_components by simp_all
  have "comp_model (layout_components
     (assign_in_turn design_two_resistors ''RES''
        [Assign_rlc (PInt 50) PNone PNone (PBool False),
         Assign_spice (PStr ''r.sp'') (PStr ''RMODEL'')]) ! 2) =
     Some (Spice_model (PStr ''r.sp'') (PStr ''RMODEL''))"
    using assign_model_last_wins [OF _ r2, of
        "[Assign_rlc (PInt 50) PNone PNone (PBool False),
          Assign_spice (PStr ''r.sp'') (PStr ''RMODEL'')]"]
    by simp
  moreover have "comp_model (layout_components
     (assign_in_turn design_two_resistors ''RES''
        [Assign_spice (PStr ''r.sp'') (PStr ''RMODEL''),
         Assign_s_param (PStr ''a.s2p'') PNone (PStr ''GND''),
         Assign_rlc (PInt 50) PNone PNone (PBool False)]) ! 2) =
     Some (Rlc_model (PInt 50) PNone PNone (PBool False))"
    using assign_model_last_wins [OF _ r2, of
        "[Assign_spice (PStr ''r.sp'') (PStr ''RMODEL''),
          Assign_s_param (PStr ''a.s2p'') PNone (PStr ''GND''),
          Assign_rlc (PInt 50) PNone PNone (PBool False)]"]
    by simp
  moreover have "comp_model (layout_components
     (assign_in_turn design_two_resistors ''RES''
        [Assign_rlc (PInt 50) PNone PNone (PBool False),
         Assign_s_param (PStr ''a.s2p'') PNone (PStr ''GND'')]) ! 0) =
     Some (S_param_model (PStr ''a.s2p'') PNone (PStr ''GND''))"
    using assign_model_last_wins [OF _ r1, of
        "[Assign_rlc (PInt 50) PNone PNone (PBool False),
          Assign_s_param (PStr ''a.s2p'') PNone (PStr ''GND'')]"]
    by simp
  ultimately show ?thesis by (intro conjI)
qed

section \<open>The nets example\<close>

lemma nets_example_init:
  "CfgData_init pedb nets_example =
     Inr (\<lparr> edb_comps = components_components pedb, general = CfgGeneral PNone,
            boundaries = Empty_dict,
            nets = CfgNets [PList [PStr ''N1''], PList [PStr ''GND'']], components = [],
            padstacks = CfgPadstacks PNone, pin_groups = [], ports = [], sources = [],
            setups = [CfgSetup []], stackup = PNone, s_parameters = PNone,
            spice_models = [], package_definition = PNone, operations = PNone \<rparr>, pedb)"
  by (simp add: nets_example_def CfgData_init_def Let_def bind_err_def dict_get_def
        init_nets_def init_components_def init_pin_groups_def init_ports_def
        init_sources_def init_setups_def init_spice_models_def)

text \<open>
  Claim C6. Constructed from the nets configuration
  \<^verbatim>\<open>{signal_nets: ["N1"], power_ground_nets: ["GND"]}\<close>, the nets category holds the two
  lists, and applying it to any design classifies the net \<^verbatim>\<open>N1\<close> as signal and the net
  \<^verbatim>\<open>GND\<close> as power/ground, and leaves every other net, the order of the nets and the
  components as they were.
\<close>

theorem nets_example_apply:
  "\<exists>cfg. CfgData_init pedb nets_example = Inr (cfg, pedb) \<and>
     nets cfg = CfgNets [PList [PStr ''N1''], PList [PStr ''GND'']] \<and>
     layout_nets (CfgNets_apply (nets cfg) pedb) =
       map (\<lambda>nc. if fst nc = ''GND'' then (''GND'', Power_ground)
                  else if fst nc = ''N1'' then (''N1'', Signal) else nc) (layout_nets pedb) \<and>
     layout_components (CfgNets_apply (nets cfg) pedb) = layout_components pedb"
proof -
  have "layout_nets (CfgNets_apply (CfgNets [PList [PStr ''N1''], PList [PStr ''GND'']]) pedb) =
       map (\<lambda>nc. if fst nc = ''GND'' then (''GND'', Power_ground)
                  else if fst nc = ''N1'' then (''N1'', Signal) else nc) (layout_nets pedb)"
    by (simp add: classify_net_def)
  moreover have "layout_components
       (CfgNets_apply (CfgNets [PList [PStr ''N1''], PList [PStr ''GND'']]) pedb) =
       layout_components pedb"
    by (simp add: classify_net_def)
  ultimately show ?thesis by (simp add: nets_example_init)
qed

text \<open>The theorem at a design with the unclassified nets \<^verbatim>\<open>N1\<close>, \<^verbatim>\<open>GND\<close> and \<^verbatim>\<open>N2\<close>.\<close>

theorem nets_example_apply_witness:
  "\<exists>cfg. CfgData_init design_two_resistors nets_example = Inr (cfg, design_two_resistors) \<and>
     layout_nets (CfgNets_apply (nets cfg) design_two_resistors) =
       [(''N1'', Signal), (''GND'', Power_ground), (''N2'', Unclassified)]"
proof -
  obtain cfg where c: "CfgData_init design_two_resistors nets_example =
        Inr (cfg, design_two_resistors)"
    and n: "layout_nets (CfgNets_apply (nets cfg) design_two_resistors) =
       map (\<lambda>nc. if fst nc = ''GND'' then (''GND'', Power_ground)
                  else if fst nc = ''N1'' then (''N1'', Signal) else nc)
         (layout_nets design_two_resistors)"
    using nets_example_apply [of design_two_resistors] by blast
  have "map (\<lambda>nc. if fst nc = ''GND'' then (''GND'', Power_ground)
                  else if fst nc = ''N1'' then (''N1'', Signal) else nc)
         (layout_nets design_two_resistors) =
        [(''N1'', Signal), (''GND'', Power_ground), (''N2'', Unclassified)]"
    by (simp add: design_two_resistors_def)
  with c n show ?thesis by auto
qed

section \<open>What \<^verbatim>\<open>CfgData\<close> exposes\<close>

text \<open>
  Claim C3 says \<^verbatim>\<open>CfgData\<close> exposes an \<^verbatim>\<open>apply()\<close> operation. The class defines the
  constructor only: on the object constructed from the empty mapping, looking up
  \<^verbatim>\<open>apply\<close> raises \<^verbatim>\<open>AttributeError\<close>.
\<close>

theorem CfgData_no_apply_counterexample:
  "CfgData_init \<lparr>layout_components = [], layout_nets = []\<rparr> [] =
     Inr (\<lparr> edb_comps = [], general = CfgGeneral PNone,
            boundaries = Empty_dict, nets = CfgNets [], components = [],
            padstacks = CfgPadstacks PNone, pin_groups = [], ports = [], sources = [],
            setups = [CfgSetup []], stackup = PNone, s_parameters = PNone,
            spice_models = [], package_definition = PNone, operations = PNone \<rparr>,
          \<lparr>layout_components = [], layout_nets = []\<rparr>) \<and>
   CfgData_getattr \<lparr> edb_comps = [], general = CfgGeneral PNone,
            boundaries = Empty_dict, nets = CfgNets [], components = [],
            padstacks = CfgPadstacks PNone, pin_groups = [], ports = [], sources = [],
            setups = [CfgSetup []], stackup = PNone, s_parameters = PNone,
            spice_models = [], package_definition = PNone, operations = PNone \<rparr> ''apply''
     = Inl AttributeError"
proof
  show "CfgData_init \<lparr>layout_components = [], layout_nets = []\<rparr> [] =
     Inr (\<lparr> edb_comps = [], general = CfgGeneral PNone,
            boundaries = Empty_dict, nets = CfgNets [], components = [],
            padstacks = CfgPadstacks PNone, pin_groups = [], ports = [], sources = [],
            setups = [CfgSetup []], stackup = PNone, s_parameters = PNone,
            spice_models = [], package_definition = PNone, operations = PNone \<rparr>,
          \<lparr>layout_components = [], layout_nets = []\<rparr>)"
    by (simp add: CfgData_init_empty components_components_def dict_of_def)
next
  show "CfgData_getattr \<lparr> edb_comps = [], general = CfgGeneral PNone,
            boundaries = Empty_dict, nets = CfgNets [], components = [],
            padstacks = CfgPadstacks PNone, pin_groups = [], ports = [], sources = [],
            setups = [CfgSetup []], stackup = PNone, s_parameters = PNone,
            spice_models = [], package_definition = PNone, operations = PNone \<rparr> ''apply''
     = Inl AttributeError"
    by (simp add: CfgData_getattr_def CfgData_vars_def CfgData_methods_def
        object_attributes_def)
qed

lemma getattr_apply: "CfgData_getattr cfg ''apply'' = Inl AttributeError"
  by (simp add: CfgData_getattr_def CfgData_vars_def CfgData_methods_def
        object_attributes_def)

lemma getattr_method:
  "CfgData_getattr cfg name = Inr (Attr_method m) \<longleftrightarrow> name = ''__init__'' \<and> m = ''__init__''"
proof -
  have v: "map_of (CfgData_vars cfg) name = Some (Attr_method m) \<longleftrightarrow> False"
    by (auto simp: CfgData_vars_def split: if_splits)
  have i: "map_of (CfgData_vars cfg) ''__init__'' = None"
    by (simp add: CfgData_vars_def)
  show ?thesis
  proof (cases "map_of (CfgData_vars cfg) name")
    case None
    then show ?thesis by (auto simp: CfgData_getattr_def CfgData_methods_def)
  next
    case (Some a)
    with v i show ?thesis by (auto simp: CfgData_getattr_def)
  qed
qed

text \<open>
  Claim C3, as the code has it. No \<^verbatim>\<open>CfgData\<close> object has an \<^verbatim>\<open>apply\<close> attribute; the
  only method the class defines is \<^verbatim>\<open>__init__\<close>. What the object exposes is the
  categories themselves, as the attributes \<^verbatim>\<open>general\<close>, \<^verbatim>\<open>boundaries\<close>, \<^verbatim>\<open>nets\<close>,
  \<^verbatim>\<open>components\<close>, \<^verbatim>\<open>padstacks\<close>, \<^verbatim>\<open>pin_groups\<close>, \<^verbatim>\<open>ports\<close>, \<^verbatim>\<open>sources\<close>, \<^verbatim>\<open>setups\<close>
  and \<^verbatim>\<open>spice_models\<close>; the class fixes no order in which they are applied.
\<close>

theorem CfgData_exposes:
  "CfgData_getattr cfg ''apply'' = Inl AttributeError \<and>
   (\<forall>name m. CfgData_getattr cfg name = Inr (Attr_method m) \<longleftrightarrow>
        name = ''__init__'' \<and> m = ''__init__'') \<and>
   CfgData_getattr cfg ''general'' = Inr (Attr_general (general cfg)) \<and>
   CfgData_getattr cfg ''boundaries'' = Inr (Attr_boundaries (boundaries cfg)) \<and>
   CfgData_getattr cfg ''nets'' = Inr (Attr_nets (nets cfg)) \<and>
   CfgData_getattr cfg ''components'' = Inr (Attr_components (components cfg)) \<and>
   CfgData_getattr cfg ''padstacks'' = Inr (Attr_padstacks (padstacks cfg)) \<and>
   CfgData_getattr cfg ''pin_groups'' = Inr (Attr_pin_groups (pin_groups cfg)) \<and>
   CfgData_getattr cfg ''ports'' = Inr (Attr_ports (ports cfg)) \<and>
   CfgData_getattr cfg ''sources'' = Inr (Attr_sources (sources cfg)) \<and>
   CfgData_getattr cfg ''setups'' = Inr (Attr_setups (setups cfg)) \<and>
   CfgData_getattr cfg ''spice_models'' = Inr (Attr_spice_models (spice_models cfg))"
  using getattr_apply getattr_method
  by (simp add: CfgData_getattr_def CfgData_vars_def)

section \<open>Failure of an apply pass\<close>

lemma apply_entries_attempted:
  "fst ` set (attempted (apply_entries c es s)) \<subseteq> insert c (fst ` set (attempted s))"
proof (induction es arbitrary: s)
  case Nil
  then show ?case by auto
next
  case (Cons e es)
  show ?case
  proof (cases "mutate e (design s)")
    case (Inr d)
    let ?s = "s\<lparr>design := d, attempted := attempted s @ [(c, entry_id e)]\<rparr>"
    have "fst ` set (attempted (apply_entries c es ?s)) \<subseteq> insert c (fst ` set (attempted ?s))"
      by (rule Cons.IH)
    with Inr show ?thesis by auto
  next
    case (Inl err)
    let ?s = "s\<lparr>attempted := attempted s @ [(c, entry_id e)],
                  warnings := warnings s @ [(c, entry_id e)]\<rparr>"
    have "fst ` set (attempted (apply_entries c es ?s)) \<subseteq> insert c (fst ` set (attempted ?s))"
      by (rule Cons.IH)
    with Inl show ?thesis by auto
  qed
qed

lemma apply_entries_failed:
  "failed s = None \<Longrightarrow> failed (apply_entries c es s) = Some (c', e', err) \<Longrightarrow>
   c' = c \<and> attempted (apply_entries c es s) \<noteq> [] \<and>
   last (attempted (apply_entries c es s)) = (c, e') \<and>
   (\<exists>en\<in>set es. entry_id en = e' \<and> (\<exists>d. mutate en d = Inl err) \<and>
        (err = ResolutionError \<longrightarrow> required en))"
proof (induction es arbitrary: s)
  case Nil
  then show ?case by simp
next
  case (Cons e es)
  show ?case
  proof (cases "mutate e (design s)")
    case (Inr d)
    let ?s = "s\<lparr>design := d, attempted := attempted s @ [(c, entry_id e)]\<rparr>"
    have "failed ?s = None" using Cons.prems(1) by simp
    moreover have "failed (apply_entries c es ?s) = Some (c', e', err)"
      using Cons.prems(2) Inr by simp
    ultimately have "c' = c \<and> attempted (apply_entries c es ?s) \<noteq> [] \<and>
       last (attempted (apply_entries c es ?s)) = (c, e') \<and>
       (\<exists>en\<in>set es. entry_id en = e' \<and> (\<exists>d. mutate en d = Inl err) \<and>
            (err = ResolutionError \<longrightarrow> required en))"
      by (rule Cons.IH)
    with Inr show ?thesis by auto
  next
    case (Inl er)
    show ?thesis
    proof (cases "er = ResolutionError \<and> \<not> required e")
      case True
      let ?s = "s\<lparr>attempted := attempted s @ [(c, entry_id e)],
                    warnings := warnings s @ [(c, entry_id e)]\<rparr>"
      have "failed ?s = None" using Cons.prems(1) by simp
      moreover have "failed (apply_entries c es ?s) = Some (c', e', err)"
        using Cons.prems(2) Inl True by simp
      ultimately have "c' = c \<and> attempted (apply_entries c es ?s) \<noteq> [] \<and>
         last (attempted (apply_entries c es ?s)) = (c, e') \<and>
         (\<exists>en\<in>set es. entry_id en = e' \<and> (\<exists>d. mutate en d = Inl err) \<and>
              (err = ResolutionError \<longrightarrow> required en))"
        by (rule Cons.IH)
      with Inl True show ?thesis by auto
    next
      case False
      with Inl Cons.prems show ?thesis by auto
    qed
  qed
qed

lemma apply_categories_failed:
  "failed s = None \<Longrightarrow> failed (apply_categories cs s) = Some (c, e, err) \<Longrightarrow>
   \<exists>pre es post. cs = pre @ (c, es) # post \<and>
     fst ` set (attempted (apply_categories cs s)) \<subseteq>
        fst ` set (attempted s) \<union> fst ` set pre \<union> {c} \<and>
     attempted (apply_categories cs s) \<noteq> [] \<and>
     last (attempted (apply_categories cs s)) = (c, e) \<and>
     (\<exists>en\<in>set es. entry_id en = e \<and> (\<exists>d. mutate en d = Inl err) \<and>
          (err = ResolutionError \<longrightarrow> required en))"
proof (induction cs arbitrary: s)
  case Nil
  then show ?case by simp
next
  case (Cons ce cs)
  let ?s = "apply_entries (fst ce) (snd ce) s"
  have att: "fst ` set (attempted ?s) \<subseteq> insert (fst ce) (fst ` set (attempted s))"
    by (rule apply_entries_attempted)
  show ?case
  proof (cases "failed ?s = None")
    case True
    then have r: "apply_categories (ce # cs) s = apply_categories cs ?s"
      by (simp add: Let_def)
    with Cons.prems(2) have "failed (apply_categories cs ?s) = Some (c, e, err)" by simp
    with True obtain pre es post where p: "cs = pre @ (c, es) # post"
      "fst ` set (attempted (apply_categories cs ?s)) \<subseteq>
          fst ` set (attempted ?s) \<union> fst ` set pre \<union> {c}"
      "attempted (apply_categories cs ?s) \<noteq> []"
      "last (attempted (apply_categories cs ?s)) = (c, e)"
      "\<exists>en\<in>set es. entry_id en = e \<and> (\<exists>d. mutate en d = Inl err) \<and>
          (err = ResolutionError \<longrightarrow> required en)"
      using Cons.IH [of ?s] by blast
    have "ce # cs = (ce # pre) @ (c, es) # post" using p(1) by simp
    moreover have "fst ` set (attempted (apply_categories (ce # cs) s)) \<subseteq>
          fst ` set (attempted s) \<union> fst ` set (ce # pre) \<union> {c}"
      using p(2) att unfolding r by auto
    ultimately show ?thesis using p(3,4,5) unfolding r by blast
  next
    case False
    then have r: "apply_categories (ce # cs) s = ?s"
      by (cases "failed ?s") (simp_all add: Let_def)
    with Cons.prems(2) have f: "failed ?s = Some (c, e, err)" by simp
    from apply_entries_failed [OF Cons.prems(1) f]
    have q: "c = fst ce" "attempted ?s \<noteq> []" "last (attempted ?s) = (fst ce, e)"
      "\<exists>en\<in>set (snd ce). entry_id en = e \<and> (\<exists>d. mutate en d = Inl err) \<and>
          (err = ResolutionError \<longrightarrow> required en)"
      by auto
    have "ce # cs = [] @ (c, snd ce) # cs" using q(1) by simp
    moreover have "fst ` set (attempted (apply_categories (ce # cs) s)) \<subseteq>
          fst ` set (attempted s) \<union> fst ` set ([] :: (string \<times> entry list) list) \<union> {c}"
      using att q(1) unfolding r by auto
    ultimately show ?thesis using q unfolding r by blast
  qed
qed

lemma categories_distinct: "distinct (map fst (categories_in_order r))"
  by (simp add: categories_in_order_def)

lemma apply_entries_keeps_failure:
  "failed (apply_entries c es s) = None \<Longrightarrow> failed s = None"
proof (induction es arbitrary: s)
  case Nil
  then show ?case by simp
next
  case (Cons e es)
  show ?case
  proof (cases "mutate e (design s)")
    case (Inr d)
    with Cons.prems have
      "failed (apply_entries c es (s\<lparr>design := d, attempted := attempted s @ [(c, entry_id e)]\<rparr>)) = None"
      by simp
    then have "failed (s\<lparr>design := d, attempted := attempted s @ [(c, entry_id e)]\<rparr>) = None"
      by (rule Cons.IH)
    then show ?thesis by simp
  next
    case (Inl er)
    show ?thesis
    proof (cases "er = ResolutionError \<and> \<not> required e")
      case True
      with Inl Cons.prems have
        "failed (apply_entries c es (s\<lparr>attempted := attempted s @ [(c, entry_id e)],
                    warnings := warnings s @ [(c, entry_id e)]\<rparr>)) = None"
        by simp
      then have "failed (s\<lparr>attempted := attempted s @ [(c, entry_id e)],
                    warnings := warnings s @ [(c, entry_id e)]\<rparr>) = None"
        by (rule Cons.IH)
      then show ?thesis by simp
    next
      case False
      with Inl Cons.prems show ?thesis by auto
    qed
  qed
qed

lemma apply_entries_append:
  "failed (apply_entries c xs s) = None \<Longrightarrow>
   apply_entries c (xs @ ys) s = apply_entries c ys (apply_entries c xs s)"
proof (induction xs arbitrary: s)
  case Nil
  then show ?case by simp
next
  case (Cons e xs)
  show ?case
  proof (cases "mutate e (design s)")
    case (Inr d)
    with Cons.prems have
      "failed (apply_entries c xs (s\<lparr>design := d, attempted := attempted s @ [(c, entry_id e)]\<rparr>)) = None"
      by simp
    then show ?thesis using Inr Cons.IH by simp
  next
    case (Inl er)
    show ?thesis
    proof (cases "er = ResolutionError \<and> \<not> required e")
      case True
      with Inl Cons.prems have
        "failed (apply_entries c xs (s\<lparr>attempted := attempted s @ [(c, entry_id e)],
                    warnings := warnings s @ [(c, entry_id e)]\<rparr>)) = None"
        by simp
      then show ?thesis using Inl True Cons.IH by simp
    next
      case False
      with Inl Cons.prems show ?thesis by auto
    qed
  qed
qed

lemma apply_entries_stops:
  assumes "failed (apply_entries c es1 s) = None"
    and "mutate en (design (apply_entries c es1 s)) = Inl err"
    and "err = ResolutionError \<longrightarrow> required en"
  shows "apply_entries c (es1 @ en # es2) s =
     (apply_entries c es1 s)
       \<lparr>attempted := attempted (apply_entries c es1 s) @ [(c, entry_id en)],
        failed := Some (c, entry_id en, err)\<rparr>"
proof -
  have "apply_entries c (es1 @ en # es2) s = apply_entries c (en # es2) (apply_entries c es1 s)"
    using assms(1) by (rule apply_entries_append)
  also have "\<dots> = (apply_entries c es1 s)
       \<lparr>attempted := attempted (apply_entries c es1 s) @ [(c, entry_id en)],
        failed := Some (c, entry_id en, err)\<rparr>"
    using assms(2,3) by auto
  finally show ?thesis .
qed

lemma apply_categories_append:
  "failed (apply_categories pre s) = None \<Longrightarrow>
   apply_categories (pre @ cs) s = apply_categories cs (apply_categories pre s)"
proof (induction pre arbitrary: s)
  case Nil
  then show ?case by simp
next
  case (Cons ce pre)
  show ?case
  proof (cases "failed (apply_entries (fst ce) (snd ce) s) = None")
    case True
    with Cons.prems have
      "failed (apply_categories pre (apply_entries (fst ce) (snd ce) s)) = None"
      by (simp add: Let_def)
    then show ?thesis using True Cons.IH by (simp add: Let_def)
  next
    case False
    then have "apply_categories (ce # pre) s = apply_entries (fst ce) (snd ce) s"
      by (cases "failed (apply_entries (fst ce) (snd ce) s)") (simp_all add: Let_def)
    with Cons.prems False show ?thesis by simp
  qed
qed

lemma apply_categories_stops:
  assumes "failed (apply_entries c es1 (apply_categories pre s)) = None"
    and "mutate en (design (apply_entries c es1 (apply_categories pre s))) = Inl err"
    and "err = ResolutionError \<longrightarrow> required en"
  shows "apply_categories (pre @ (c, es1 @ en # es2) # post) s =
     (apply_entries c es1 (apply_categories pre s))
       \<lparr>attempted := attempted (apply_entries c es1 (apply_categories pre s)) @
                        [(c, entry_id en)],
        failed := Some (c, entry_id en, err)\<rparr>"
proof -
  let ?s1 = "apply_categories pre s"
  let ?r = "(apply_entries c es1 ?s1)
       \<lparr>attempted := attempted (apply_entries c es1 ?s1) @ [(c, entry_id en)],
        failed := Some (c, entry_id en, err)\<rparr>"
  have f1: "failed ?s1 = None" using assms(1) by (rule apply_entries_keeps_failure)
  have e: "apply_entries c (es1 @ en # es2) ?s1 = ?r"
    using assms by (rule apply_entries_stops)
  have "apply_categories (pre @ (c, es1 @ en # es2) # post) s =
        apply_categories ((c, es1 @ en # es2) # post) ?s1"
    using f1 by (rule apply_categories_append)
  also have "\<dots> = ?r"
    unfolding apply_categories.simps fst_conv snd_conv e by (simp add: Let_def)
  finally show ?thesis .
qed

lemma ConfigRoot_apply_start:
  "ConfigRoot_apply r pedb = apply_categories (categories_in_order r) (pass_start pedb)"
  by (simp add: ConfigRoot_apply_def pass_start_def)

lemma apply_categories_attempted:
  "fst ` set (attempted (apply_categories cs s)) \<subseteq> fst ` set (attempted s) \<union> fst ` set cs"
proof (induction cs arbitrary: s)
  case Nil
  then show ?case by simp
next
  case (Cons ce cs)
  let ?s = "apply_entries (fst ce) (snd ce) s"
  have a: "fst ` set (attempted ?s) \<subseteq> insert (fst ce) (fst ` set (attempted s))"
    by (rule apply_entries_attempted)
  show ?case
  proof (cases "failed ?s = None")
    case True
    then have "apply_categories (ce # cs) s = apply_categories cs ?s" by (simp add: Let_def)
    moreover have "fst ` set (attempted (apply_categories cs ?s)) \<subseteq>
        fst ` set (attempted ?s) \<union> fst ` set cs"
      by (rule Cons.IH)
    ultimately show ?thesis using a by auto
  next
    case False
    then have "apply_categories (ce # cs) s = ?s"
      by (cases "failed ?s") (simp_all add: Let_def)
    then show ?thesis using a by auto
  qed
qed

lemma pass_aborts:
  assumes split: "categories_in_order r = pre @ (c, es1 @ en # es2) # post"
    and before: "failed (apply_entries c es1 (apply_categories pre (pass_start pedb))) = None"
    and answer: "mutate en (design (apply_entries c es1 (apply_categories pre (pass_start pedb))))
                   = Inl err"
    and fatal: "err = ResolutionError \<longrightarrow> required en"
  shows "failed (ConfigRoot_apply r pedb) = Some (c, entry_id en, err) \<and>
     attempted (ConfigRoot_apply r pedb) =
       attempted (apply_entries c es1 (apply_categories pre (pass_start pedb))) @
         [(c, entry_id en)] \<and>
     design (ConfigRoot_apply r pedb) =
       design (apply_entries c es1 (apply_categories pre (pass_start pedb))) \<and>
     (\<forall>later\<in>fst ` set post. later \<notin> fst ` set (attempted (ConfigRoot_apply r pedb)))"
proof -
  let ?s2 = "apply_entries c es1 (apply_categories pre (pass_start pedb))"
  have run: "ConfigRoot_apply r pedb =
      ?s2\<lparr>attempted := attempted ?s2 @ [(c, entry_id en)],
           failed := Some (c, entry_id en, err)\<rparr>"
    unfolding ConfigRoot_apply_start split using before answer fatal
    by (rule apply_categories_stops)
  have "fst ` set (attempted ?s2) \<subseteq>
      insert c (fst ` set (attempted (apply_categories pre (pass_start pedb))))"
    by (rule apply_entries_attempted)
  moreover have "fst ` set (attempted (apply_categories pre (pass_start pedb))) \<subseteq>
      fst ` set (attempted (pass_start pedb)) \<union> fst ` set pre"
    by (rule apply_categories_attempted)
  moreover have "attempted (pass_start pedb) = []" by (simp add: pass_start_def)
  ultimately have sub: "fst ` set (attempted ?s2) \<subseteq> insert c (fst ` set pre)" by auto
  have "distinct (map fst (pre @ (c, es1 @ en # es2) # post))"
    using categories_distinct [of r] split by simp
  then have d: "\<forall>later\<in>fst ` set post. later \<noteq> c \<and> later \<notin> fst ` set pre" by auto
  have "\<forall>later\<in>fst ` set post. later \<notin> fst ` set (attempted (ConfigRoot_apply r pedb))"
  proof
    fix later assume l: "later \<in> fst ` set post"
    with d have "later \<noteq> c" "later \<notin> fst ` set pre" by blast+
    with sub have "later \<notin> fst ` set (attempted ?s2)" by blast
    with \<open>later \<noteq> c\<close> show "later \<notin> fst ` set (attempted (ConfigRoot_apply r pedb))"
      unfolding run by auto
  qed
  with run show ?thesis by simp
qed

lemma pass_failure_origin:
  assumes "failed (ConfigRoot_apply r pedb) = Some (c, e, err)"
  shows "\<exists>pre es post. categories_in_order r = pre @ (c, es) # post \<and>
     (\<forall>later\<in>fst ` set post. later \<notin> fst ` set (attempted (ConfigRoot_apply r pedb))) \<and>
     attempted (ConfigRoot_apply r pedb) \<noteq> [] \<and>
     last (attempted (ConfigRoot_apply r pedb)) = (c, e) \<and>
     (\<exists>en\<in>set es. entry_id en = e \<and> (\<exists>d. mutate en d = Inl err) \<and>
          (err = ResolutionError \<longrightarrow> required en))"
proof -
  let ?s0 = "pass_start pedb"
  have "failed ?s0 = None" by (simp add: pass_start_def)
  moreover have "failed (apply_categories (categories_in_order r) ?s0) = Some (c, e, err)"
    using assms by (simp add: ConfigRoot_apply_start)
  ultimately obtain pre es post where p: "categories_in_order r = pre @ (c, es) # post"
      "fst ` set (attempted (apply_categories (categories_in_order r) ?s0)) \<subseteq>
          fst ` set (attempted ?s0) \<union> fst ` set pre \<union> {c}"
      "attempted (apply_categories (categories_in_order r) ?s0) \<noteq> []"
      "last (attempted (apply_categories (categories_in_order r) ?s0)) = (c, e)"
      "\<exists>en\<in>set es. entry_id en = e \<and> (\<exists>d. mutate en d = Inl err) \<and>
          (err = ResolutionError \<longrightarrow> required en)"
    using apply_categories_failed [of ?s0 "categories_in_order r" c e err] by blast
  have "distinct (map fst (pre @ (c, es) # post))"
    using categories_distinct [of r] p(1) by simp
  then have d: "\<forall>later\<in>fst ` set post. later \<notin> fst ` set pre \<union> {c}"
    by auto
  have "\<forall>later\<in>fst ` set post.
          later \<notin> fst ` set (attempted (apply_categories (categories_in_order r) ?s0))"
  proof
    fix later assume "later \<in> fst ` set post"
    with d have "later \<notin> fst ` set pre \<union> {c}" by blast
    moreover have "fst ` set (attempted (apply_categories (categories_in_order r) ?s0))
        \<subseteq> fst ` set pre \<union> {c}"
      using p(2) by (simp add: pass_start_def)
    ultimately show
      "later \<notin> fst ` set (attempted (apply_categories (categories_in_order r) ?s0))"
      by blast
  qed
  with p(1,3,4,5) show ?thesis unfolding ConfigRoot_apply_start by blast
qed

text \<open>
  Claim C4, in both directions. First: when the pass reaches an entry \<open>en\<close> of a category
  \<open>c\<close> (everything before it was applied or skipped with a warning) and the external
  handle answers its application with an error that is not recoverable (any
  ConfigurationError or ApplyError, and a ResolutionError on a required entry), the pass
  ends there: the failure it reports is \<open>c\<close>, the identifier of \<open>en\<close> and that error, the
  design is the one the entry was applied to, \<open>en\<close> is the last entry attempted, and no
  category after \<open>c\<close> is attempted. Second: every failure a pass reports arises in this
  way.
\<close>

theorem ConfigRoot_apply_fail_fast:
  "(categories_in_order r = pre @ (c, es1 @ en # es2) # post \<and>
    failed (apply_entries c es1 (apply_categories pre (pass_start pedb))) = None \<and>
    mutate en (design (apply_entries c es1 (apply_categories pre (pass_start pedb)))) = Inl err \<and>
    (err = ResolutionError \<longrightarrow> required en) \<longrightarrow>
      failed (ConfigRoot_apply r pedb) = Some (c, entry_id en, err) \<and>
      attempted (ConfigRoot_apply r pedb) =
        attempted (apply_entries c es1 (apply_categories pre (pass_start pedb))) @
          [(c, entry_id en)] \<and>
      design (ConfigRoot_apply r pedb) =
        design (apply_entries c es1 (apply_categories pre (pass_start pedb))) \<and>
      (\<forall>later\<in>fst ` set post. later \<notin> fst ` set (attempted (ConfigRoot_apply r pedb)))) \<and>
   (failed (ConfigRoot_apply r pedb) = Some (c', e', err') \<longrightarrow>
      (\<exists>pre' es' post'. categories_in_order r = pre' @ (c', es') # post' \<and>
        (\<forall>later\<in>fst ` set post'.
            later \<notin> fst ` set (attempted (ConfigRoot_apply r pedb))) \<and>
        attempted (ConfigRoot_apply r pedb) \<noteq> [] \<and>
        last (attempted (ConfigRoot_apply r pedb)) = (c', e') \<and>
        (\<exists>en'\<in>set es'. entry_id en' = e' \<and> (\<exists>d. mutate en' d = Inl err') \<and>
             (err' = ResolutionError \<longrightarrow> required en'))))"
proof (intro conjI impI)
  assume a: "categories_in_order r = pre @ (c, es1 @ en # es2) # post \<and>
    failed (apply_entries c es1 (apply_categories pre (pass_start pedb))) = None \<and>
    mutate en (design (apply_entries c es1 (apply_categories pre (pass_start pedb)))) = Inl err \<and>
    (err = ResolutionError \<longrightarrow> required en)"
  have r: "failed (ConfigRoot_apply r pedb) = Some (c, entry_id en, err) \<and>
     attempted (ConfigRoot_apply r pedb) =
       attempted (apply_entries c es1 (apply_categories pre (pass_start pedb))) @
         [(c, entry_id en)] \<and>
     design (ConfigRoot_apply r pedb) =
       design (apply_entries c es1 (apply_categories pre (pass_start pedb))) \<and>
     (\<forall>later\<in>fst ` set post. later \<notin> fst ` set (attempted (ConfigRoot_apply r pedb)))"
    using a by (intro pass_aborts) blast+
  from r show "failed (ConfigRoot_apply r pedb) = Some (c, entry_id en, err)" by blast
  from r show "attempted (ConfigRoot_apply r pedb) =
       attempted (apply_entries c es1 (apply_categories pre (pass_start pedb))) @
         [(c, entry_id en)]" by blast
  from r show "design (ConfigRoot_apply r pedb) =
       design (apply_entries c es1 (apply_categories pre (pass_start pedb)))" by blast
  from r show "\<forall>later\<in>fst ` set post.
      later \<notin> fst ` set (attempted (ConfigRoot_apply r pedb))" by blast
next
  assume "failed (ConfigRoot_apply r pedb) = Some (c', e', err')"
  then show "\<exists>pre' es' post'. categories_in_order r = pre' @ (c', es') # post' \<and>
        (\<forall>later\<in>fst ` set post'.
            later \<notin> fst ` set (attempted (ConfigRoot_apply r pedb))) \<and>
        attempted (ConfigRoot_apply r pedb) \<noteq> [] \<and>
        last (attempted (ConfigRoot_apply r pedb)) = (c', e') \<and>
        (\<exists>en'\<in>set es'. entry_id en' = e' \<and> (\<exists>d. mutate en' d = Inl err') \<and>
             (err' = ResolutionError \<longrightarrow> required en'))"
    by (rule pass_failure_origin)
qed

text \<open>
  The theorem at the example pass: the optional net that is not found is skipped with
  a warning, the pass stops at the optional component \<^verbatim>\<open>R1\<close> that the handle rejects,
  and neither \<^verbatim>\<open>R2\<close> nor the port is attempted.
\<close>

theorem ConfigRoot_apply_fail_fast_witness:
  "failed (ConfigRoot_apply stopping_root design_two_resistors) =
     Some (''components'', ''R1'', ApplyError) \<and>
   attempted (ConfigRoot_apply stopping_root design_two_resistors) =
     [(''nets'', ''N1''), (''nets'', ''N9''), (''components'', ''R1'')] \<and>
   ''ports'' \<notin> fst ` set (attempted (ConfigRoot_apply stopping_root design_two_resistors))"
proof -
  let ?N = "[\<lparr>entry_id = ''N1'', required = False, mutate = (\<lambda>d. Inr d)\<rparr>,
             \<lparr>entry_id = ''N9'', required = False, mutate = (\<lambda>d. Inl ResolutionError)\<rparr>]"
  let ?R1 = "\<lparr>entry_id = ''R1'', required = False, mutate = (\<lambda>d. Inl ApplyError)\<rparr>"
  let ?R2 = "\<lparr>entry_id = ''R2'', required = False, mutate = (\<lambda>d. Inr d)\<rparr>"
  let ?P = "[\<lparr>entry_id = ''port1'', required = False, mutate = (\<lambda>d. Inr d)\<rparr>]"
  let ?pre = "[(''general'', []), (''nets'', ?N), (''padstacks'', [])]"
  let ?post = "[(''pin_groups'', []), (''ports'', ?P), (''sources'', []), (''setups'', []),
                (''spice_models'', []), (''boundaries'', [])]"
  have split: "categories_in_order stopping_root =
      ?pre @ (''components'', [] @ ?R1 # [?R2]) # ?post"
    by (simp add: categories_in_order_def stopping_root_def)
  have run: "apply_entries ''components'' [] (apply_categories ?pre (pass_start design_two_resistors))
      = \<lparr>design = design_two_resistors,
          attempted = [(''nets'', ''N1''), (''nets'', ''N9'')],
          warnings = [(''nets'', ''N9'')], failed = None\<rparr>"
    by (simp add: pass_start_def Let_def)
  have before: "failed (apply_entries ''components'' []
      (apply_categories ?pre (pass_start design_two_resistors))) = None"
    unfolding run by simp
  have answer: "mutate ?R1 (design (apply_entries ''components'' []
      (apply_categories ?pre (pass_start design_two_resistors)))) = Inl ApplyError"
    by simp
  have fatal: "ApplyError = ResolutionError \<longrightarrow> required ?R1" by simp
  have r: "failed (ConfigRoot_apply stopping_root design_two_resistors) =
         Some (''components'', entry_id ?R1, ApplyError) \<and>
      attempted (ConfigRoot_apply stopping_root design_two_resistors) =
        attempted (apply_entries ''components'' []
           (apply_categories ?pre (pass_start design_two_resistors))) @
          [(''components'', entry_id ?R1)] \<and>
      design (ConfigRoot_apply stopping_root design_two_resistors) =
        design (apply_entries ''components'' []
           (apply_categories ?pre (pass_start design_two_resistors))) \<and>
      (\<forall>later\<in>fst ` set ?post.
          later \<notin> fst ` set (attempted (ConfigRoot_apply stopping_root design_two_resistors)))"
    using ConfigRoot_apply_fail_fast [where r = stopping_root and pre = ?pre
        and c = "''components''" and ?es1.0 = "[]" and en = ?R1 and ?es2.0 = "[?R2]"
        and post = ?post and pedb = design_two_resistors and err = ApplyError]
      split before answer fatal
    by blast
  from r have f: "failed (ConfigRoot_apply stopping_root design_two_resistors) =
     Some (''components'', ''R1'', ApplyError)" by simp
  from r have a: "attempted (ConfigRoot_apply stopping_root design_two_resistors) =
     [(''nets'', ''N1''), (''nets'', ''N9''), (''components'', ''R1'')]"
    unfolding run by simp
  from r have "\<forall>later\<in>fst ` set ?post.
          later \<notin> fst ` set (attempted (ConfigRoot_apply stopping_root design_two_resistors))"
    by blast
  moreover have "''ports'' \<in> fst ` set ?post" by simp
  ultimately have p: "''ports'' \<notin>
      fst ` set (attempted (ConfigRoot_apply stopping_root design_two_resistors))"
    by blast
  from f a p show ?thesis by (intro conjI)
qed

end
